theory Spec2Isabelle
  imports Complex_Main "HOL-Library.Sublist" "HOL-Library.AList"
    "HOL-Library.List_Lexorder" "HOL-Library.Char_ord"
begin

section \<open>Python primitives used by the scripts\<close>

text \<open>
  Strings are \<^typ>\<open>string\<close> (byte lists); Python floats are idealised as \<^typ>\<open>real\<close>,
  Python's unbounded integers are \<^typ>\<open>int\<close>. \<open>str.lower\<close> is modelled on the ASCII
  letters, which is all the markers and extensions compared against contain.
\<close>

definition lower_char :: "char \<Rightarrow> char" where
  "lower_char c =
     (case map_of (zip ''ABCDEFGHIJKLMNOPQRSTUVWXYZ'' ''abcdefghijklmnopqrstuvwxyz'') c of
        None \<Rightarrow> c | Some l \<Rightarrow> l)"

definition py_lower :: "string \<Rightarrow> string" where
  "py_lower s = map lower_char s"

text \<open>\<open>needle in hay\<close> on strings: some suffix of \<open>hay\<close> starts with \<open>needle\<close>.\<close>

fun str_contains :: "string \<Rightarrow> string \<Rightarrow> bool" where
  "str_contains needle [] = (needle = [])"
| "str_contains needle (c # cs) = (prefix needle (c # cs) \<or> str_contains needle cs)"

text \<open>\<open>d.get(key, default)\<close> on an optional field.\<close>

definition get_or :: "'a option \<Rightarrow> 'a \<Rightarrow> 'a" where
  "get_or v d = (case v of None \<Rightarrow> d | Some x \<Rightarrow> x)"

section \<open>Canonical spots and the geofence filter (filter_malaysia_only.py)\<close>

record spot =
  spot_id :: int
  name :: "string option"
  lat :: "real option"
  lng :: "real option"
  description :: "string option"
  category :: "string option"
  images :: "string list"
  rating :: "real option"
  address :: "string option"
  spot_notes :: string

text \<open>The module constants \<open>MALAYSIA_LAT_MIN\<close> ... \<open>MALAYSIA_LNG_MAX\<close>, as one environment.\<close>

record bounds =
  LAT_MIN :: real
  LAT_MAX :: real
  LNG_MIN :: real
  LNG_MAX :: real

definition MALAYSIA :: bounds where
  "MALAYSIA = \<lparr>LAT_MIN = 0.8, LAT_MAX = 7.4, LNG_MIN = 99.6, LNG_MAX = 119.3\<rparr>"

text \<open>
  The body of \<open>is_malaysia_location\<close>, with the four module constants it reads passed as
  \<open>b\<close>: the (0,0) test, then the text markers, then the inclusive range test.
\<close>

definition is_location_within :: "bounds \<Rightarrow> real \<Rightarrow> real \<Rightarrow> string \<Rightarrow> string \<Rightarrow> string \<Rightarrow> bool" where
  "is_location_within b la lo nm de ad =
     (if la = 0 \<and> lo = 0 then False
      else let text = py_lower (nm @ '' '' @ de @ '' '' @ ad)
           in if str_contains ''singapore'' text \<or> str_contains ''pulau ubin'' text then False
              else (LAT_MIN b \<le> la \<and> la \<le> LAT_MAX b \<and> LNG_MIN b \<le> lo \<and> lo \<le> LNG_MAX b))"

definition is_malaysia_location :: "real \<Rightarrow> real \<Rightarrow> string \<Rightarrow> string \<Rightarrow> string \<Rightarrow> bool" where
  "is_malaysia_location = is_location_within MALAYSIA"

text \<open>The test as the filter loop applies it to one record, with the \<open>.get\<close> defaults.\<close>

definition keep_spot :: "'a spot_scheme \<Rightarrow> bool" where
  "keep_spot s =
     is_malaysia_location (get_or (lat s) 0) (get_or (lng s) 0)
       (get_or (name s) []) (get_or (description s) []) (get_or (address s) [])"

definition filter_malaysia_spots :: "'a spot_scheme list \<Rightarrow> 'a spot_scheme list" where
  "filter_malaysia_spots spots =
     (let malaysia_spots = filter keep_spot spots
      in map (\<lambda>(i, s). s\<lparr>spot_id := int i + 1\<rparr>) (enumerate 0 malaysia_spots))"

text \<open>Spec-side notions for the geofence claims.\<close>

definition in_bounding_box :: "bounds \<Rightarrow> real \<Rightarrow> real \<Rightarrow> bool" where
  "in_bounding_box b la lo =
     (LAT_MIN b \<le> la \<and> la \<le> LAT_MAX b \<and> LNG_MIN b \<le> lo \<and> lo \<le> LNG_MAX b)"

definition excluded_markers :: "string list" where
  "excluded_markers = [''singapore'', ''pulau ubin'']"

definition has_excluded_marker :: "string \<Rightarrow> string \<Rightarrow> string \<Rightarrow> bool" where
  "has_excluded_marker nm de ad =
     (\<exists>m \<in> set excluded_markers. sublist m (py_lower (nm @ '' '' @ de @ '' '' @ ad)))"

definition erase_id :: "'a spot_scheme \<Rightarrow> 'a spot_scheme" where
  "erase_id s = s\<lparr>spot_id := 0\<rparr>"

section \<open>More Python primitives\<close>

datatype py_error = IndexError | ValueError

text \<open>\<open>s.replace(old, new)\<close>: every non-overlapping occurrence, left to right.\<close>

function py_replace :: "string \<Rightarrow> string \<Rightarrow> string \<Rightarrow> string" where
  "py_replace old new [] = (if old = [] then new else [])"
| "py_replace old new (c # cs) =
     (if old = [] then new @ concat (map (\<lambda>x. x # new) (c # cs))
      else if prefix old (c # cs) then new @ py_replace old new (drop (length old) (c # cs))
      else c # py_replace old new cs)"
  by pat_completeness auto
termination
  by (relation "measure (\<lambda>(old, new, s). length s)") auto

text \<open>\<open>s.split(sep)\<close> for a one-character separator.\<close>

fun py_split :: "char \<Rightarrow> string \<Rightarrow> string list" where
  "py_split sep [] = [[]]"
| "py_split sep (c # cs) =
     (if c = sep then [] # py_split sep cs
      else (case py_split sep cs of [] \<Rightarrow> [[c]] | w # ws \<Rightarrow> (c # w) # ws))"

text \<open>
  \<open>int(s)\<close> in base 10, first on a string of ASCII characters: the whitespace around the
  number is skipped (blank, tab, line feed, vertical tab, form feed, carriage return), one
  sign is allowed, and the digits may be grouped by single underscores. \<open>None\<close> stands
  for \<open>ValueError\<close>.
\<close>

definition is_space :: "char \<Rightarrow> bool" where
  "is_space c = (c \<in> set [CHR '' '', CHR 0x09, CHR 0x0A, CHR 0x0B, CHR 0x0C, CHR 0x0D])"

definition py_strip :: "string \<Rightarrow> string" where
  "py_strip s = rev (dropWhile is_space (rev (dropWhile is_space s)))"

definition digit_val :: "char \<Rightarrow> nat option" where
  "digit_val c = map_of (zip ''0123456789'' [0, 1, 2, 3, 4, 5, 6, 7, 8, 9]) c"

fun parse_digits :: "nat \<Rightarrow> string \<Rightarrow> nat option" where
  "parse_digits acc [] = Some acc"
| "parse_digits acc (c # cs) =
     (if c = CHR ''_''
      then (case cs of
              [] \<Rightarrow> None
            | d # ds \<Rightarrow> (case digit_val d of
                          None \<Rightarrow> None
                        | Some v \<Rightarrow> parse_digits (10 * acc + v) ds))
      else (case digit_val c of
              None \<Rightarrow> None
            | Some v \<Rightarrow> parse_digits (10 * acc + v) cs))"

definition parse_nat :: "string \<Rightarrow> nat option" where
  "parse_nat s =
     (case s of
        [] \<Rightarrow> None
      | c # cs \<Rightarrow> (case digit_val c of None \<Rightarrow> None | Some v \<Rightarrow> parse_digits v cs))"

definition int_of_ascii :: "string \<Rightarrow> int option" where
  "int_of_ascii s =
     (case py_strip s of
        [] \<Rightarrow> None
      | c # cs \<Rightarrow>
          if c = CHR ''-'' then map_option (\<lambda>n. - int n) (parse_nat cs)
          else if c = CHR ''+'' then map_option int (parse_nat cs)
          else map_option int (parse_nat (c # cs)))"

text \<open>
  A string is a list of bytes (UTF-8). When it has a character outside ASCII, \<open>int\<close> first
  rewrites it: a Unicode space becomes a blank, a Unicode decimal digit the ASCII digit of
  its value, anything else \<open>?\<close>, and ASCII characters stay. That table belongs to the
  interpreter, not to the scripts, and is the parameter \<open>to_ascii\<close> here; it is not applied
  to a string that is ASCII already.
\<close>

definition is_ascii :: "string \<Rightarrow> bool" where
  "is_ascii s = list_all (\<lambda>c. \<not> digit7 c) s"

definition py_int :: "(string \<Rightarrow> string) \<Rightarrow> string \<Rightarrow> int option" where
  "py_int to_ascii s = int_of_ascii (if is_ascii s then s else to_ascii s)"

text \<open>\<open>str(i)\<close> for an integer, as the f-strings format it.\<close>

definition digit_char :: "nat \<Rightarrow> char" where
  "digit_char n = ''0123456789'' ! n"

fun str_nat :: "nat \<Rightarrow> string" where
  "str_nat n = (if n < 10 then [digit_char n] else str_nat (n div 10) @ [digit_char (n mod 10)])"

declare str_nat.simps [simp del]

definition py_str :: "int \<Rightarrow> string" where
  "py_str i = (if i < 0 then CHR ''-'' # str_nat (nat (- i)) else str_nat (nat i))"

text \<open>
  \<open>xs[i]\<close> with Python's indexing: a negative index counts from the end, and an index
  outside \<open>-len .. len-1\<close> raises \<open>IndexError\<close>.
\<close>

definition py_index :: "'a list \<Rightarrow> int \<Rightarrow> py_error + 'a" where
  "py_index xs i =
     (if 0 \<le> i \<and> i < int (length xs) then Inr (xs ! nat i)
      else if - int (length xs) \<le> i \<and> i < 0 then Inr (xs ! nat (int (length xs) + i))
      else Inl IndexError)"

text \<open>
  \<open>max(xs, key=f)\<close> on a non-empty sequence \<open>x # xs\<close>: the running best is replaced only
  by a strictly greater key, so the first maximal element is returned.
\<close>

fun py_max_from :: "('a \<Rightarrow> 'b::linorder) \<Rightarrow> 'a \<Rightarrow> 'a list \<Rightarrow> 'a" where
  "py_max_from key best [] = best"
| "py_max_from key best (x # xs) = py_max_from key (if key best < key x then x else best) xs"

text \<open>
  \<open>Path(p).name\<close> with POSIX path rules: the last component after splitting at \<open>/\<close>,
  empty and \<open>.\<close> components being dropped; the empty string when nothing is left.
\<close>

definition posix_name :: "string \<Rightarrow> string" where
  "posix_name p =
     (case filter (\<lambda>s. s \<noteq> [] \<and> s \<noteq> ''.'') (py_split CHR ''/'' p) of
        [] \<Rightarrow> []
      | c # cs \<Rightarrow> last (c # cs))"

section \<open>Path normalisation (fix_spots_mapping.py, fix_spots_mapping_v2.py)\<close>

definition backslash :: string where
  "backslash = [CHR 0x5C]"

definition prefixes :: "string list" where
  "prefixes = [''images/'', ''scraped_data/images/'',
               ''images'' @ backslash, ''scraped_data'' @ backslash @ ''images'' @ backslash]"

text \<open>The \<open>for prefix in prefixes: ... break\<close> loop: the first prefix that matches is cut off.\<close>

fun strip_prefix :: "string list \<Rightarrow> string \<Rightarrow> string" where
  "strip_prefix [] path = path"
| "strip_prefix (p # ps) path =
     (if prefix p path then drop (length p) path else strip_prefix ps path)"

definition get_spot_folder_from_path :: "string \<Rightarrow> string option" where
  "get_spot_folder_from_path path_str =
     (let path = py_replace backslash ''/'' path_str;
          path = strip_prefix prefixes path
      in if str_contains ''spot_'' path
         then find (\<lambda>part. prefix ''spot_'' part) (py_split CHR ''/'' path)
         else None)"

definition get_image_filename_from_path :: "string \<Rightarrow> string" where
  "get_image_filename_from_path path_str = posix_name path_str"

text \<open>
  Spec-side notions for the path normaliser: separators normalised, the longest recognised
  prefix that matches cut off once, the remainder split at \<open>/\<close>, and the token pattern
  \<open>spot_<N>\<close> read as \<open>spot_\<close> followed by one or more decimal digits.
\<close>

definition normalize_separators :: "string \<Rightarrow> string" where
  "normalize_separators s = map (\<lambda>c. if [c] = backslash then CHR ''/'' else c) s"

definition longest_matching_prefix :: "string list \<Rightarrow> string \<Rightarrow> string option" where
  "longest_matching_prefix ps path =
     (case filter (\<lambda>p. prefix p path) ps of
        [] \<Rightarrow> None
      | m # ms \<Rightarrow> Some (fold (\<lambda>p best. if length best < length p then p else best) ms m))"

definition path_segments :: "string \<Rightarrow> string list" where
  "path_segments path_str =
     (let path = normalize_separators path_str
      in py_split CHR ''/''
           (case longest_matching_prefix prefixes path of
              None \<Rightarrow> path
            | Some p \<Rightarrow> drop (length p) path))"

definition is_spot_token :: "string \<Rightarrow> bool" where
  "is_spot_token s =
     (prefix ''spot_'' s \<and> drop 5 s \<noteq> [] \<and> list_all (\<lambda>c. digit_val c \<noteq> None) (drop 5 s))"

section \<open>Enrichment records and the disk inventory\<close>

text \<open>
  A record of \<open>enriched_spots.json\<close>. Every key the scripts read with \<open>.get\<close> is an
  optional field; \<open>None\<close> is an absent key.
\<close>

record image_ref =
  local_path :: "string option"

record google_data =
  place_name :: "string option"
  g_address :: "string option"
  g_category :: "string option"
  g_rating :: "real option"
  g_images :: "image_ref list option"

record location =
  latitude :: "real option"
  longitude :: "real option"
  loc_description :: "string option"
  google_maps_data :: "google_data option"

text \<open>\<open>location.get('google_maps_data', {})\<close> and, on it, \<open>.get('images', [])\<close>.\<close>

definition no_google_data :: google_data where
  "no_google_data =
     \<lparr>place_name = None, g_address = None, g_category = None, g_rating = None, g_images = None\<rparr>"

definition google_of :: "location \<Rightarrow> google_data" where
  "google_of location = get_or (google_maps_data location) no_google_data"

definition declared_images :: "location \<Rightarrow> image_ref list" where
  "declared_images location = get_or (g_images (google_of location)) []"

text \<open>
  The directory scan reads the disk; its input here is the listing of \<open>SPOTS_DIR\<close>: each
  subdirectory with the names of the image files in it, in \<open>iterdir\<close> order. A folder
  enters the dictionary only when it has an image. \<open>build_spot_to_location_mapping\<close>
  keeps the file names as listed, \<open>get_existing_images\<close> sorts them.
\<close>

type_synonym listing = "(string \<times> string list) list"

fun scan_spots :: "listing \<Rightarrow> (string \<times> string list) list \<Rightarrow> (string \<times> string list) list" where
  "scan_spots [] existing_images = existing_images"
| "scan_spots ((spot_name, files) # rest) existing_images =
     scan_spots rest
       (if files \<noteq> [] then AList.update spot_name files existing_images else existing_images)"

fun scan_sorted :: "listing \<Rightarrow> (string \<times> string list) list \<Rightarrow> (string \<times> string list) list" where
  "scan_sorted [] existing = existing"
| "scan_sorted ((spot_name, files) # rest) existing =
     scan_sorted rest
       (if files \<noteq> [] then AList.update spot_name (sort files) existing else existing)"

definition get_existing_images :: "listing \<Rightarrow> (string \<times> string list) list" where
  "get_existing_images listing = scan_sorted listing []"

section \<open>Evidence index and votes (fix_spots_mapping_v2.py)\<close>

text \<open>
  A \<open>dict\<close> is an association list in insertion order: \<open>d[k] = v\<close> is \<^const>\<open>AList.update\<close>
  (an existing key keeps its place, a new one goes to the end), \<open>d[k]\<close> is \<^const>\<open>map_of\<close>.
\<close>

definition image_key :: "string \<Rightarrow> string" where
  "image_key path =
     (let filename = get_image_filename_from_path path;
          spot_folder = get_spot_folder_from_path path
      in case spot_folder of
           None \<Rightarrow> filename
         | Some f \<Rightarrow> if f \<noteq> [] then f @ ''/'' @ filename else filename)"

fun index_images :: "int \<Rightarrow> image_ref list \<Rightarrow> (string \<times> int) list \<Rightarrow> (string \<times> int) list" where
  "index_images loc_idx [] index = index"
| "index_images loc_idx (img # imgs) index =
     (let path = get_or (local_path img) []
      in index_images loc_idx imgs
           (if path \<noteq> [] then AList.update (image_key path) loc_idx index else index))"

fun index_locations :: "(nat \<times> location) list \<Rightarrow> (string \<times> int) list \<Rightarrow> (string \<times> int) list" where
  "index_locations [] index = index"
| "index_locations ((loc_idx, location) # rest) index =
     index_locations rest (index_images (int loc_idx) (declared_images location) index)"

definition image_to_location :: "location list \<Rightarrow> (string \<times> int) list" where
  "image_to_location enriched_data = index_locations (enumerate 0 enriched_data) []"

type_synonym votes = "(string \<times> (int \<times> nat) list) list"

text \<open>\<open>spot_to_location_votes[spot_folder][loc_idx] += 1\<close> on the nested \<open>defaultdict\<close>.\<close>

definition add_vote :: "string \<Rightarrow> int \<Rightarrow> votes \<Rightarrow> votes" where
  "add_vote spot_folder loc_idx vs =
     (let inner = get_or (map_of vs spot_folder) [];
          n = get_or (map_of inner loc_idx) 0
      in AList.update spot_folder (AList.update loc_idx (n + 1) inner) vs)"

fun count_folder_votes :: "(string \<times> int) list \<Rightarrow> string \<Rightarrow> string list \<Rightarrow> votes \<Rightarrow> votes" where
  "count_folder_votes index spot_folder [] vs = vs"
| "count_folder_votes index spot_folder (img_file # rest) vs =
     (let key = spot_folder @ ''/'' @ img_file
      in count_folder_votes index spot_folder rest
           (case map_of index key of None \<Rightarrow> vs | Some loc_idx \<Rightarrow> add_vote spot_folder loc_idx vs))"

fun count_votes :: "(string \<times> int) list \<Rightarrow> (string \<times> string list) list \<Rightarrow> votes \<Rightarrow> votes" where
  "count_votes index [] vs = vs"
| "count_votes index ((spot_folder, image_files) # rest) vs =
     count_votes index rest (count_folder_votes index spot_folder image_files vs)"

text \<open>\<open>if votes: best_location = max(votes.items(), key=lambda x: x[1])[0]\<close>, per folder.\<close>

fun choose_locations :: "votes \<Rightarrow> (string \<times> int) list \<Rightarrow> (string \<times> int) list" where
  "choose_locations [] spot_to_location = spot_to_location"
| "choose_locations ((spot_folder, []) # rest) spot_to_location =
     choose_locations rest spot_to_location"
| "choose_locations ((spot_folder, v # vs) # rest) spot_to_location =
     choose_locations rest (AList.update spot_folder (fst (py_max_from snd v vs)) spot_to_location)"

definition build_spot_to_location_mapping :: "location list \<Rightarrow> listing \<Rightarrow> (string \<times> int) list" where
  "build_spot_to_location_mapping enriched_data listing =
     (let index = image_to_location enriched_data;
          existing_images = scan_spots listing [];
          spot_to_location_votes = count_votes index existing_images []
      in choose_locations spot_to_location_votes [])"

text \<open>Spec-side: the keys a record declares, one per image that has a non-empty path.\<close>

definition declared_keys :: "location \<Rightarrow> string list" where
  "declared_keys location =
     map image_key (filter (\<lambda>p. p \<noteq> []) (map (\<lambda>img. get_or (local_path img) []) (declared_images location)))"

text \<open>
  Spec-side: the votes of a folder, in the order of its files (one entry per file whose
  key is in the index), and the tally a sequence of votes builds up in a \<open>defaultdict\<close>.
\<close>

fun folder_votes :: "(string \<times> int) list \<Rightarrow> string \<Rightarrow> string list \<Rightarrow> int list" where
  "folder_votes index spot_folder [] = []"
| "folder_votes index spot_folder (img_file # rest) =
     (case map_of index (spot_folder @ ''/'' @ img_file) of
        None \<Rightarrow> folder_votes index spot_folder rest
      | Some loc_idx \<Rightarrow> loc_idx # folder_votes index spot_folder rest)"

fun tally :: "(int \<times> nat) list \<Rightarrow> int list \<Rightarrow> (int \<times> nat) list" where
  "tally inner [] = inner"
| "tally inner (l # ls) = tally (AList.update l (get_or (map_of inner l) 0 + 1) inner) ls"

section \<open>Declared-path mapping and positional fallback (fix_spots_mapping.py)\<close>

text \<open>
  \<open>build_location_to_spot_mapping\<close>: each location is mapped to the spot folder most of
  its declared paths name (the first such folder on a tie). The second result of the
  function, \<open>spot_to_locations\<close>, is not read by its caller and is left out.
\<close>

fun find_spot_folders :: "image_ref list \<Rightarrow> string set \<Rightarrow> string set" where
  "find_spot_folders [] found = found"
| "find_spot_folders (img # imgs) found =
     (let path = get_or (local_path img) []
      in find_spot_folders imgs
           (if path \<noteq> []
            then (case get_spot_folder_from_path path of
                    None \<Rightarrow> found
                  | Some f \<Rightarrow> if f \<noteq> [] then insert f found else found)
            else found))"

fun count_spots :: "image_ref list \<Rightarrow> (string \<times> nat) list \<Rightarrow> (string \<times> nat) list" where
  "count_spots [] spot_counts = spot_counts"
| "count_spots (img # imgs) spot_counts =
     (let path = get_or (local_path img) []
      in count_spots imgs
           (if path \<noteq> []
            then (case get_spot_folder_from_path path of
                    None \<Rightarrow> spot_counts
                  | Some f \<Rightarrow>
                      if f \<noteq> []
                      then AList.update f (get_or (map_of spot_counts f) 0 + 1) spot_counts
                      else spot_counts)
            else spot_counts))"

fun map_locations :: "(nat \<times> location) list \<Rightarrow> (int \<times> string) list \<Rightarrow> (int \<times> string) list" where
  "map_locations [] location_to_spot = location_to_spot"
| "map_locations ((loc_idx, location) # rest) location_to_spot =
     map_locations rest
       (if find_spot_folders (declared_images location) {} \<noteq> {}
        then (case count_spots (declared_images location) [] of
                [] \<Rightarrow> location_to_spot
              | c # cs \<Rightarrow>
                  AList.update (int loc_idx) (fst (py_max_from snd c cs)) location_to_spot)
        else location_to_spot)"

definition build_location_to_spot_mapping :: "location list \<Rightarrow> (int \<times> string) list" where
  "build_location_to_spot_mapping enriched_data = map_locations (enumerate 0 enriched_data) []"

text \<open>
  The first loop of \<open>fix_spots_json\<close>: in the order of \<open>location_to_spot\<close>, a folder that
  has images on disk and has no location yet gets the location naming it.
\<close>

fun map_declared :: "(int \<times> string) list \<Rightarrow> (string \<times> string list) list \<Rightarrow>
    (string \<times> int) list \<Rightarrow> (string \<times> int) list" where
  "map_declared [] existing_images spot_to_location = spot_to_location"
| "map_declared ((loc_idx, spot_folder) # rest) existing_images spot_to_location =
     map_declared rest existing_images
       (if spot_folder \<in> set (map fst existing_images)
        then (if spot_folder \<notin> set (map fst spot_to_location)
              then AList.update spot_folder loc_idx spot_to_location
              else spot_to_location)
        else spot_to_location)"

text \<open>
  The set \<open>location_spots\<close> of the fallback: the spot folder (or \<open>None\<close>) of every declared
  image that has a non-empty path.
\<close>

definition location_spots :: "location \<Rightarrow> string option set" where
  "location_spots location =
     set (map (\<lambda>img. get_spot_folder_from_path (get_or (local_path img) []))
            (filter (\<lambda>img. get_or (local_path img) [] \<noteq> []) (declared_images location)))"

text \<open>
  The second loop, over the folders on disk, with \<open>spot_to_location\<close> and
  \<open>mapped_locations\<close> as the state. \<open>int(...)\<close> failing is caught (\<open>pass\<close>);
  \<open>enriched_data[spot_idx]\<close> is not guarded against \<open>IndexError\<close>.
\<close>

fun map_fallback :: "(string \<Rightarrow> string) \<Rightarrow> location list \<Rightarrow> string list \<Rightarrow> (string \<times> int) list \<times> int set \<Rightarrow>
    py_error + (string \<times> int) list \<times> int set" where
  "map_fallback to_ascii enriched_data [] st = Inr st"
| "map_fallback to_ascii enriched_data (spot_folder # rest) (spot_to_location, mapped_locations) =
     (if spot_folder \<notin> set (map fst spot_to_location)
      then (case py_int to_ascii (py_replace ''spot_'' [] spot_folder) of
              None \<Rightarrow> map_fallback to_ascii enriched_data rest (spot_to_location, mapped_locations)
            | Some spot_idx \<Rightarrow>
                if spot_idx < int (length enriched_data) \<and> spot_idx \<notin> mapped_locations
                then (case py_index enriched_data spot_idx of
                        Inl e \<Rightarrow> Inl e
                      | Inr location \<Rightarrow>
                          if location_spots location = {}
                             \<or> Some spot_folder \<in> location_spots location
                          then map_fallback to_ascii enriched_data rest
                                 (AList.update spot_folder spot_idx spot_to_location,
                                  insert spot_idx mapped_locations)
                          else map_fallback to_ascii enriched_data rest
                                 (spot_to_location, mapped_locations))
                else map_fallback to_ascii enriched_data rest (spot_to_location, mapped_locations))
      else map_fallback to_ascii enriched_data rest (spot_to_location, mapped_locations))"

definition spot_to_location_v1 :: "(string \<Rightarrow> string) \<Rightarrow> location list \<Rightarrow> listing \<Rightarrow>
    py_error + (string \<times> int) list \<times> int set" where
  "spot_to_location_v1 to_ascii enriched_data listing =
     (let location_to_spot = build_location_to_spot_mapping enriched_data;
          existing_images = get_existing_images listing;
          spot_to_location = map_declared location_to_spot existing_images []
      in map_fallback to_ascii enriched_data (map fst existing_images)
           (spot_to_location, set (map snd spot_to_location)))"

section \<open>Assembling the canonical spots\<close>

text \<open>
  The loop \<open>for spot_folder in sorted(existing_images.keys())\<close>, the same text in both
  versions of \<open>fix_spots_json\<close>. \<open>n\<close> is \<open>len(spots)\<close> when the spot is built.
\<close>

definition spot_images :: "(string \<times> string list) list \<Rightarrow> string \<Rightarrow> string list" where
  "spot_images existing_images spot_folder =
     map (\<lambda>img. ''images/spots/'' @ spot_folder @ ''/'' @ img)
       (get_or (map_of existing_images spot_folder) [])"

definition located_spot :: "nat \<Rightarrow> int \<Rightarrow> location \<Rightarrow> string list \<Rightarrow> spot" where
  "located_spot n loc_idx location imgs =
     \<lparr>spot_id = int n + 1,
      name = Some (get_or (place_name (google_of location)) (''Spot '' @ py_str (loc_idx + 1))),
      lat = Some (get_or (latitude location) 0),
      lng = Some (get_or (longitude location) 0),
      description = Some (get_or (loc_description location) ''Beautiful drone location''),
      category = Some (get_or (g_category (google_of location)) ''Nature''),
      images = sort imgs,
      rating = g_rating (google_of location),
      address = Some (get_or (g_address (google_of location)) []),
      spot_notes = ''Check local rules''\<rparr>"

definition unlocated_spot :: "(string \<Rightarrow> string) \<Rightarrow> nat \<Rightarrow> string \<Rightarrow> string list \<Rightarrow> spot" where
  "unlocated_spot to_ascii n spot_folder imgs =
     (let spot_idx = (case py_int to_ascii (py_replace ''spot_'' [] spot_folder) of
                        None \<Rightarrow> int n
                      | Some i \<Rightarrow> i)
      in \<lparr>spot_id = int n + 1,
          name = Some (''Drone Spot '' @ py_str (spot_idx + 1)),
          lat = Some 0,
          lng = Some 0,
          description = Some ''Beautiful drone location'',
          category = Some ''Nature'',
          images = sort imgs,
          rating = None,
          address = Some [],
          spot_notes = ''Check local rules''\<rparr>)"

fun build_spots :: "(string \<Rightarrow> string) \<Rightarrow> (string \<times> int) list \<Rightarrow> location list \<Rightarrow> (string \<times> string list) list \<Rightarrow>
    string list \<Rightarrow> spot list \<Rightarrow> py_error + spot list" where
  "build_spots to_ascii spot_to_location enriched_data existing_images [] spots = Inr spots"
| "build_spots to_ascii spot_to_location enriched_data existing_images (spot_folder # rest) spots =
     (let imgs = spot_images existing_images spot_folder
      in case map_of spot_to_location spot_folder of
           None \<Rightarrow>
             build_spots to_ascii spot_to_location enriched_data existing_images rest
               (spots @ [unlocated_spot to_ascii (length spots) spot_folder imgs])
         | Some loc_idx \<Rightarrow>
             if loc_idx < int (length enriched_data)
             then (case py_index enriched_data loc_idx of
                     Inl e \<Rightarrow> Inl e
                   | Inr location \<Rightarrow>
                       build_spots to_ascii spot_to_location enriched_data existing_images rest
                         (spots @ [located_spot (length spots) loc_idx location imgs]))
             else build_spots to_ascii spot_to_location enriched_data existing_images rest
                    (spots @ [unlocated_spot to_ascii (length spots) spot_folder imgs]))"

definition fix_spots_json_v2 :: "(string \<Rightarrow> string) \<Rightarrow> location list \<Rightarrow> listing \<Rightarrow> py_error + spot list" where
  "fix_spots_json_v2 to_ascii enriched_data listing =
     (let spot_to_location = build_spot_to_location_mapping enriched_data listing;
          existing_images = get_existing_images listing
      in build_spots to_ascii spot_to_location enriched_data existing_images
           (sort (map fst existing_images)) [])"

definition fix_spots_json_v1 :: "(string \<Rightarrow> string) \<Rightarrow> location list \<Rightarrow> listing \<Rightarrow> py_error + spot list" where
  "fix_spots_json_v1 to_ascii enriched_data listing =
     (case spot_to_location_v1 to_ascii enriched_data listing of
        Inl e \<Rightarrow> Inl e
      | Inr (spot_to_location, mapped_locations) \<Rightarrow>
          build_spots to_ascii spot_to_location enriched_data (get_existing_images listing)
            (sort (map fst (get_existing_images listing))) [])"

section \<open>Rebuilding from the disk inventory (update_spots_json.py)\<close>

text \<open>
  \<open>update_spots_json\<close>: a folder whose name does not parse is skipped (\<open>continue\<close>), and
  the id of a spot is the folder's index plus one.
\<close>

definition indexed_spot :: "int \<Rightarrow> location option \<Rightarrow> string list \<Rightarrow> spot" where
  "indexed_spot spot_idx spot_data imgs =
     (case spot_data of
        Some location \<Rightarrow>
          \<lparr>spot_id = spot_idx + 1,
           name = Some (get_or (place_name (google_of location)) (''Spot '' @ py_str (spot_idx + 1))),
           lat = Some (get_or (latitude location) 0),
           lng = Some (get_or (longitude location) 0),
           description = Some (get_or (loc_description location) ''Beautiful drone location''),
           category = Some (get_or (g_category (google_of location)) ''Nature''),
           images = sort imgs,
           rating = g_rating (google_of location),
           address = Some (get_or (g_address (google_of location)) []),
           spot_notes = ''Check local rules''\<rparr>
      | None \<Rightarrow>
          \<lparr>spot_id = spot_idx + 1,
           name = Some (''Spot '' @ py_str (spot_idx + 1)),
           lat = Some 0,
           lng = Some 0,
           description = Some ''Beautiful drone location'',
           category = Some ''Nature'',
           images = sort imgs,
           rating = None,
           address = Some [],
           spot_notes = ''Check local rules''\<rparr>)"

fun update_spots :: "(string \<Rightarrow> string) \<Rightarrow> location list \<Rightarrow> (string \<times> string list) list \<Rightarrow> string list \<Rightarrow>
    spot list \<Rightarrow> py_error + spot list" where
  "update_spots to_ascii spots_data existing_images [] spots = Inr spots"
| "update_spots to_ascii spots_data existing_images (spot_name # rest) spots =
     (case py_int to_ascii (py_replace ''spot_'' [] spot_name) of
        None \<Rightarrow> update_spots to_ascii spots_data existing_images rest spots
      | Some spot_idx \<Rightarrow>
          if spot_idx < int (length spots_data)
          then (case py_index spots_data spot_idx of
                  Inl e \<Rightarrow> Inl e
                | Inr spot_data \<Rightarrow>
                    update_spots to_ascii spots_data existing_images rest
                      (spots @ [indexed_spot spot_idx (Some spot_data)
                                  (spot_images existing_images spot_name)]))
          else update_spots to_ascii spots_data existing_images rest
                 (spots @ [indexed_spot spot_idx None (spot_images existing_images spot_name)]))"

definition update_spots_json :: "(string \<Rightarrow> string) \<Rightarrow> location list \<Rightarrow> listing \<Rightarrow> py_error + spot list" where
  "update_spots_json to_ascii spots_data listing =
     (let existing_images = get_existing_images listing
      in update_spots to_ascii spots_data existing_images (sort (map fst existing_images)) [])"

section \<open>Great-circle distance and coordinate correction (correct_coordinates_crawlee.py)\<close>

text \<open>
  \<open>math.radians\<close>, \<open>math.sqrt\<close> (which raises \<open>ValueError\<close> below zero) and \<open>math.atan2\<close>
  over the reals.
\<close>

definition radians :: "real \<Rightarrow> real" where
  "radians x = x * pi / 180"

definition py_sqrt :: "real \<Rightarrow> py_error + real" where
  "py_sqrt x = (if x < 0 then Inl ValueError else Inr (sqrt x))"

definition atan2 :: "real \<Rightarrow> real \<Rightarrow> real" where
  "atan2 y x =
     (if 0 < x then arctan (y / x)
      else if x < 0 then (if 0 \<le> y then arctan (y / x) + pi else arctan (y / x) - pi)
      else if 0 < y then pi / 2
      else if y < 0 then - (pi / 2)
      else 0)"

definition calculate_distance :: "real \<Rightarrow> real \<Rightarrow> real \<Rightarrow> real \<Rightarrow> py_error + real" where
  "calculate_distance lat1 lon1 lat2 lon2 =
     (let R = 6371;
          dlat = radians (lat2 - lat1);
          dlon = radians (lon2 - lon1);
          a = (sin (dlat / 2))\<^sup>2
              + cos (radians lat1) * cos (radians lat2) * (sin (dlon / 2))\<^sup>2
      in case py_sqrt a of
           Inl e \<Rightarrow> Inl e
         | Inr root_a \<Rightarrow>
             (case py_sqrt (1 - a) of
                Inl e \<Rightarrow> Inl e
              | Inr root_b \<Rightarrow> Inr (R * (2 * atan2 root_a root_b))))"

text \<open>Spec-side: the reference half-angle formula, on the angles in radians.\<close>

definition haversine_a :: "real \<Rightarrow> real \<Rightarrow> real \<Rightarrow> real \<Rightarrow> real" where
  "haversine_a lat1 lon1 lat2 lon2 =
     (sin ((radians lat2 - radians lat1) / 2))\<^sup>2
     + cos (radians lat1) * cos (radians lat2) * (sin ((radians lon2 - radians lon1) / 2))\<^sup>2"

definition distance_km_reference :: "real \<Rightarrow> real \<Rightarrow> real \<Rightarrow> real \<Rightarrow> real" where
  "distance_km_reference lat1 lon1 lat2 lon2 =
     6371 * 2 * atan2 (sqrt (haversine_a lat1 lon1 lat2 lon2))
                      (sqrt (1 - haversine_a lat1 lon1 lat2 lon2))"

text \<open>
  The correction pass. The lookup \<open>scrape_google_maps_coords\<close> is the external
  collaborator: a parameter \<open>scrape\<close> from place name and address to an optional
  coordinate pair. The counters and the list of corrections are the state of the run; the
  delay between requests is not modelled.
\<close>

definition DISTANCE_THRESHOLD_KM :: real where
  "DISTANCE_THRESHOLD_KM = 5"

record correction =
  c_index :: nat
  c_name :: string
  old_coords :: "real \<times> real"
  new_coords :: "real \<times> real"
  distance_km :: real

record run_state =
  corrected_count :: nat
  unchanged_count :: nat
  error_count :: nat
  corrections :: "correction list"

definition process_location ::
    "(string \<Rightarrow> string \<Rightarrow> (real \<times> real) option) \<Rightarrow> nat \<Rightarrow> location \<Rightarrow> run_state \<Rightarrow>
       py_error + location \<times> run_state" where
  "process_location scrape idx location st =
     (let pname = get_or (place_name (google_of location)) [];
          addr = get_or (g_address (google_of location)) [];
          current_lat = get_or (latitude location) 0;
          current_lng = get_or (longitude location) 0
      in if pname = [] then Inr (location, st\<lparr>unchanged_count := unchanged_count st + 1\<rparr>)
         else (case scrape pname addr of
                 None \<Rightarrow> Inr (location, st\<lparr>error_count := error_count st + 1\<rparr>)
               | Some (new_lat, new_lng) \<Rightarrow>
                   (case calculate_distance current_lat current_lng new_lat new_lng of
                      Inl e \<Rightarrow> Inl e
                    | Inr distance \<Rightarrow>
                        if distance > DISTANCE_THRESHOLD_KM
                        then Inr (location\<lparr>latitude := Some new_lat, longitude := Some new_lng\<rparr>,
                                  st\<lparr>corrected_count := corrected_count st + 1,
                                     corrections := corrections st @
                                       [\<lparr>c_index = idx, c_name = pname,
                                         old_coords = (current_lat, current_lng),
                                         new_coords = (new_lat, new_lng),
                                         distance_km = distance\<rparr>]\<rparr>)
                        else Inr (location, st\<lparr>unchanged_count := unchanged_count st + 1\<rparr>))))"

fun process_locations ::
    "(string \<Rightarrow> string \<Rightarrow> (real \<times> real) option) \<Rightarrow> (nat \<times> location) list \<Rightarrow> run_state \<Rightarrow>
       py_error + location list \<times> run_state" where
  "process_locations scrape [] st = Inr ([], st)"
| "process_locations scrape ((idx, location) # rest) st =
     (case process_location scrape idx location st of
        Inl e \<Rightarrow> Inl e
      | Inr (location', st') \<Rightarrow>
          (case process_locations scrape rest st' of
             Inl e \<Rightarrow> Inl e
           | Inr (rest', st'') \<Rightarrow> Inr (location' # rest', st'')))"

definition correct_coordinates ::
    "(string \<Rightarrow> string \<Rightarrow> (real \<times> real) option) \<Rightarrow> location list \<Rightarrow>
       py_error + location list \<times> run_state" where
  "correct_coordinates scrape enriched_data =
     process_locations scrape (enumerate 0 enriched_data)
       \<lparr>corrected_count = 0, unchanged_count = 0, error_count = 0, corrections = []\<rparr>"

section \<open>Facts about the primitives\<close>

lemma str_contains_sublist: "str_contains n h = sublist n h"
  by (induction h) (auto simp: sublist_Cons_right)

section \<open>The geofence filter\<close>

lemma is_location_within_iff:
  "(\<not> is_location_within b la lo nm de ad) =
     ((la = 0 \<and> lo = 0) \<or> \<not> in_bounding_box b la lo \<or> has_excluded_marker nm de ad)"
  by (auto simp: is_location_within_def in_bounding_box_def has_excluded_marker_def
      excluded_markers_def str_contains_sublist Let_def)

text \<open>
  C4. The membership test rejects a record exactly when its coordinate is (0,0), or lies
  outside the bounding box (an inclusive range test on both axes), or the space-joined
  name, description and address contain, case-insensitively, an excluded-region marker;
  and (0,0) is rejected whatever the four bounds are.
\<close>

theorem geofence_rejects_iff:
  "((\<not> is_malaysia_location la lo nm de ad) =
      ((la = 0 \<and> lo = 0) \<or> \<not> in_bounding_box MALAYSIA la lo \<or> has_excluded_marker nm de ad))
   \<and> (\<forall>b. \<not> is_location_within b 0 0 nm de ad)"
  by (simp add: is_malaysia_location_def is_location_within_iff)

theorem geofence_rejects_iff_witness:
  "is_malaysia_location 3.1 101.6 ''KLCC'' ''Park'' ''Kuala Lumpur''
   \<and> \<not> is_malaysia_location 1.4 103.9 ''Pulau'' ''Ubin jetty'' []
   \<and> \<not> is_malaysia_location 8 101.6 ''KLCC'' ''Park'' ''Kuala Lumpur''
   \<and> \<not> is_location_within \<lparr>LAT_MIN = -1, LAT_MAX = 1, LNG_MIN = -1, LNG_MAX = 1\<rparr> 0 0 ''KLCC'' ''Park'' ''Kuala Lumpur''"
  using geofence_rejects_iff [of "3.1" "101.6" "''KLCC''" "''Park''" "''Kuala Lumpur''"]
    geofence_rejects_iff [of "1.4" "103.9" "''Pulau''" "''Ubin jetty''" "[]"]
    geofence_rejects_iff [of 8 "101.6" "''KLCC''" "''Park''" "''Kuala Lumpur''"]
  by (simp add: in_bounding_box_def MALAYSIA_def has_excluded_marker_def excluded_markers_def
      py_lower_def lower_char_def flip: str_contains_sublist)

lemma keep_spot_id [simp]: "keep_spot (s\<lparr>spot_id := i\<rparr>) = keep_spot s"
  by (simp add: keep_spot_def)

lemma renumber_ids:
  "map spot_id (map (\<lambda>(i, s). s\<lparr>spot_id := int i + 1\<rparr>) (enumerate n ys))
     = map (\<lambda>i. int i + 1) [n..<n + length ys]"
  by (induction ys arbitrary: n) (simp_all add: upt_rec)

lemma renumber_erase:
  "map erase_id (map (\<lambda>(i, s). s\<lparr>spot_id := int i + 1\<rparr>) (enumerate n ys)) = map erase_id ys"
  by (induction ys arbitrary: n) (simp_all add: erase_id_def)

lemma renumber_keep:
  assumes "\<forall>y \<in> set ys. keep_spot y"
  shows "filter keep_spot (map (\<lambda>(i, s). s\<lparr>spot_id := int i + 1\<rparr>) (enumerate n ys))
     = map (\<lambda>(i, s). s\<lparr>spot_id := int i + 1\<rparr>) (enumerate n ys)"
  using assms by (induction ys arbitrary: n) simp_all

lemma renumber_twice:
  "map (\<lambda>(i, s). s\<lparr>spot_id := int i + 1\<rparr>)
     (enumerate n (map (\<lambda>(i, s). s\<lparr>spot_id := int i + 1\<rparr>) (enumerate n ys)))
     = map (\<lambda>(i, s). s\<lparr>spot_id := int i + 1\<rparr>) (enumerate n ys)"
  by (induction ys arbitrary: n) simp_all

lemma filter_malaysia_spots_idem:
  "filter_malaysia_spots (filter_malaysia_spots xs) = filter_malaysia_spots xs"
  by (simp add: filter_malaysia_spots_def Let_def renumber_keep renumber_twice)

lemma upt_shift_int: "map (\<lambda>i. int i + 1) [0..<m] = map int [1..<Suc m]"
  by (induction m) simp_all

text \<open>
  C10. With the ids erased, the filter's output is the input filtered by the membership
  test, so it is a subsequence of the input in the input's order and every survivor keeps
  all its other fields; the ids of the output are 1, 2, ... in output order; and filtering
  a filtered list changes nothing.
\<close>

theorem filter_malaysia_spots_frame:
  "map erase_id (filter_malaysia_spots xs) = filter keep_spot (map erase_id xs)
   \<and> subseq (map erase_id (filter_malaysia_spots xs)) (map erase_id xs)
   \<and> map spot_id (filter_malaysia_spots xs)
       = map int [1..<Suc (length (filter_malaysia_spots xs))]
   \<and> filter_malaysia_spots (filter_malaysia_spots xs) = filter_malaysia_spots xs"
proof -
  have e: "map erase_id (filter_malaysia_spots xs) = map erase_id (filter keep_spot xs)"
    unfolding filter_malaysia_spots_def Let_def by (rule renumber_erase)
  have f: "map erase_id (filter keep_spot xs) = filter keep_spot (map erase_id xs)"
    by (simp add: filter_map comp_def erase_id_def)
  have l: "length (filter_malaysia_spots xs) = length (filter keep_spot xs)"
    by (simp add: filter_malaysia_spots_def Let_def)
  have "map spot_id (filter_malaysia_spots xs)
          = map (\<lambda>i. int i + 1) [0..<length (filter keep_spot xs)]"
    using renumber_ids [of 0 "filter keep_spot xs"]
    by (simp add: filter_malaysia_spots_def Let_def)
  with l have ids: "map spot_id (filter_malaysia_spots xs)
          = map int [1..<Suc (length (filter_malaysia_spots xs))]"
    by (simp add: upt_shift_int)
  show ?thesis
    using e f ids filter_malaysia_spots_idem by (simp add: subseq_filter_left)
qed

theorem filter_malaysia_spots_frame_witness:
  "map spot_id (filter_malaysia_spots
     [\<lparr>spot_id = 4, name = Some ''Unset'', lat = Some 0, lng = Some 0, description = None,
        category = None, images = [], rating = None, address = None, spot_notes = []\<rparr>,
      \<lparr>spot_id = 9, name = Some ''KLCC'', lat = Some 3.1, lng = Some 101.6, description = None,
        category = None, images = [], rating = None, address = None, spot_notes = []\<rparr>]) = [1]"
  using filter_malaysia_spots_frame
    [of "[\<lparr>spot_id = 4, name = Some ''Unset'', lat = Some 0, lng = Some 0, description = None,
        category = None, images = [], rating = None, address = None, spot_notes = []\<rparr>,
      \<lparr>spot_id = 9, name = Some ''KLCC'', lat = Some 3.1, lng = Some 101.6, description = None,
        category = None, images = [], rating = None, address = None, spot_notes = []\<rparr>]"]
  by (simp add: filter_malaysia_spots_def keep_spot_def get_or_def is_malaysia_location_def
      is_location_within_def MALAYSIA_def py_lower_def lower_char_def)

section \<open>The path normaliser\<close>

lemma py_split_nonempty: "py_split c s \<noteq> []"
  by (induction s) (auto split: list.splits)

lemma py_split_head_rest:
  "py_split c s = w # ws \<Longrightarrow> prefix w s \<and> (\<forall>seg \<in> set ws. sublist seg s)"
proof (induction s arbitrary: w ws)
  case Nil
  then show ?case by simp
next
  case (Cons x xs)
  obtain v vs where v: "py_split c xs = v # vs"
    using py_split_nonempty by (cases "py_split c xs") auto
  from Cons.IH [OF v] have ih: "prefix v xs" "\<forall>seg \<in> set vs. sublist seg xs" by simp_all
  show ?case
  proof (cases "x = c")
    case True
    with Cons.prems v have "w = []" "ws = v # vs" by simp_all
    with ih show ?thesis by (auto simp: sublist_Cons_right)
  next
    case False
    with Cons.prems v have "w = x # v" "ws = vs" by simp_all
    with ih show ?thesis by (auto simp: sublist_Cons_right)
  qed
qed

lemma py_split_sublist: "seg \<in> set (py_split c s) \<Longrightarrow> sublist seg s"
proof -
  assume a: "seg \<in> set (py_split c s)"
  obtain w ws where w: "py_split c s = w # ws"
    using py_split_nonempty by (cases "py_split c s") auto
  from py_split_head_rest [OF w] a w show ?thesis by auto
qed

lemma find_spot_contains:
  "find (\<lambda>part. prefix ''spot_'' part) (py_split c s) = Some seg \<Longrightarrow> str_contains ''spot_'' s"
proof -
  assume "find (\<lambda>part. prefix ''spot_'' part) (py_split c s) = Some seg"
  then have "seg \<in> set (py_split c s)" "prefix ''spot_'' seg"
    by (auto simp: find_Some_iff)
  then have "sublist ''spot_'' seg" "sublist seg s"
    by (auto intro: py_split_sublist)
  then show ?thesis
    unfolding str_contains_sublist by (rule sublist_order.order_trans)
qed


lemma py_replace_char:
  "py_replace [a] [b] s = map (\<lambda>c. if c = a then b else c) s"
  by (induction s) auto

lemma normalize_separators_eq: "py_replace backslash ''/'' s = normalize_separators s"
  by (simp add: backslash_def normalize_separators_def py_replace_char)

lemma normalize_separators_id: "CHR 0x5C \<notin> set s \<Longrightarrow> normalize_separators s = s"
  by (induction s) (auto simp: normalize_separators_def backslash_def)

lemma no_backslash_normalized: "CHR 0x5C \<notin> set (normalize_separators s)"
  by (auto simp: normalize_separators_def backslash_def)

lemma strip_prefix_longest:
  "strip_prefix prefixes path =
     (case longest_matching_prefix prefixes path of None \<Rightarrow> path | Some p \<Rightarrow> drop (length p) path)"
proof -
  have ex: "\<not> (prefix a path \<and> prefix b path)" if "\<not> prefix a b" "\<not> prefix b a" for a b :: string
    using that prefix_same_cases by blast
  have 1: "\<not> (prefix ''images/'' path \<and> prefix ''scraped_data/images/'' path)"
    by (rule ex) simp_all
  have 2: "\<not> (prefix ''images/'' path \<and> prefix (''images'' @ backslash) path)"
    by (rule ex) (simp_all add: backslash_def)
  have 3: "\<not> (prefix ''images/'' path \<and> prefix (''scraped_data'' @ backslash @ ''images'' @ backslash) path)"
    by (rule ex) (simp_all add: backslash_def)
  have 4: "\<not> (prefix ''scraped_data/images/'' path \<and> prefix (''images'' @ backslash) path)"
    by (rule ex) (simp_all add: backslash_def)
  have 5: "\<not> (prefix ''scraped_data/images/'' path \<and> prefix (''scraped_data'' @ backslash @ ''images'' @ backslash) path)"
    by (rule ex) (simp_all add: backslash_def)
  have 6: "\<not> (prefix (''images'' @ backslash) path \<and> prefix (''scraped_data'' @ backslash @ ''images'' @ backslash) path)"
    by (rule ex) (simp_all add: backslash_def)
  show ?thesis
    using 1 2 3 4 5 6 by (auto simp: prefixes_def longest_matching_prefix_def)
qed

lemma py_split_append: "py_split c (xs @ c # ys) = py_split c xs @ py_split c ys"
proof (induction xs)
  case Nil
  then show ?case by simp
next
  case (Cons x xs)
  obtain v vs where v: "py_split c xs = v # vs"
    using py_split_nonempty by (cases "py_split c xs") auto
  with Cons show ?case by simp
qed

lemma last_split_drop:
  assumes "prefix (pre @ [c]) path"
  shows "last (py_split c (drop (length (pre @ [c])) path)) = last (py_split c path)"
proof -
  from assms obtain rest where r: "path = pre @ c # rest"
    by (auto simp: prefix_def)
  then show ?thesis
    by (simp add: py_split_append py_split_nonempty)
qed

lemma last_split_strip:
  assumes "CHR 0x5C \<notin> set path"
  shows "last (py_split CHR ''/'' (strip_prefix prefixes path)) = last (py_split CHR ''/'' path)"
proof -
  have nb: "\<not> prefix (q @ backslash @ r) path" for q r
    using assms by (auto simp: prefix_def backslash_def)
  have a: "prefix ''images/'' path \<Longrightarrow>
      last (py_split CHR ''/'' (drop (length ''images/'') path)) = last (py_split CHR ''/'' path)"
    using last_split_drop [of "''images''" "CHR ''/''" path] by simp
  have b: "prefix ''scraped_data/images/'' path \<Longrightarrow>
      last (py_split CHR ''/'' (drop (length ''scraped_data/images/'') path)) = last (py_split CHR ''/'' path)"
    using last_split_drop [of "''scraped_data/images''" "CHR ''/''" path] by simp
  show ?thesis
    using a b nb [of "''images''" "[]"] nb [of "''scraped_data''" "''images'' @ backslash"]
    by (simp add: prefixes_def)
qed

lemma posix_name_last:
  assumes "last (py_split CHR ''/'' p) \<notin> {[], ''.''}"
  shows "posix_name p = last (py_split CHR ''/'' p)"
proof -
  have "last (filter P xs) = last xs" if "xs \<noteq> []" "P (last xs)" for P and xs :: "string list"
  proof -
    from that obtain ys where "xs = ys @ [last xs]"
      by (metis append_butlast_last_id)
    then have "filter P xs = filter P ys @ [last xs]"
      using that(2) by (metis filter.simps filter_append)
    then show ?thesis by simp
  qed
  from this [of "py_split CHR ''/'' p" "\<lambda>s. s \<noteq> [] \<and> s \<noteq> ''.''"] assms
  have l: "last (filter (\<lambda>s. s \<noteq> [] \<and> s \<noteq> ''.'') (py_split CHR ''/'' p)) = last (py_split CHR ''/'' p)"
    by (simp add: py_split_nonempty)
  have "last (py_split CHR ''/'' p) \<in> set (py_split CHR ''/'' p)"
    by (simp add: py_split_nonempty)
  with assms have "filter (\<lambda>s. s \<noteq> [] \<and> s \<noteq> ''.'') (py_split CHR ''/'' p) \<noteq> []"
    by (auto simp: filter_empty_conv)
  then have "posix_name p = last (filter (\<lambda>s. s \<noteq> [] \<and> s \<noteq> ''.'') (py_split CHR ''/'' p))"
    unfolding posix_name_def by (auto split: list.splits)
  with l show ?thesis by simp
qed

lemma path_segments_strip:
  "path_segments p = py_split CHR ''/'' (strip_prefix prefixes (normalize_separators p))"
  by (simp add: path_segments_def strip_prefix_longest Let_def)

lemma get_spot_folder_find:
  "get_spot_folder_from_path p = find (\<lambda>seg. prefix ''spot_'' seg) (path_segments p)"
proof (cases "find (\<lambda>seg. prefix ''spot_'' seg) (path_segments p)")
  case None
  then show ?thesis
    by (simp add: get_spot_folder_from_path_def path_segments_strip normalize_separators_eq Let_def)
next
  case (Some seg)
  then have "str_contains ''spot_'' (strip_prefix prefixes (normalize_separators p))"
    unfolding path_segments_strip by (rule find_spot_contains)
  with Some show ?thesis
    by (simp add: get_spot_folder_from_path_def path_segments_strip normalize_separators_eq Let_def)
qed

text \<open>
  C9 (as amended). The normaliser replaces backslashes, cuts off once the longest
  recognised prefix that matches (at most one of them can match), splits the rest at
  \<open>/\<close> and returns the first segment that starts with \<open>spot_\<close>, whatever follows it;
  a path with no recognised prefix is split as it is; when no segment starts with
  \<open>spot_\<close> the result is \<open>None\<close>; and for a path without backslashes whose last
  segment is neither empty nor \<open>.\<close>, the filename is the last segment.
\<close>

theorem get_spot_folder_from_path_spec:
  "get_spot_folder_from_path p = find (\<lambda>seg. prefix ''spot_'' seg) (path_segments p)
   \<and> (longest_matching_prefix prefixes (normalize_separators p) = None
        \<longrightarrow> path_segments p = py_split CHR ''/'' (normalize_separators p))
   \<and> ((\<forall>seg \<in> set (path_segments p). \<not> prefix ''spot_'' seg)
        \<longrightarrow> get_spot_folder_from_path p = None)
   \<and> (CHR 0x5C \<notin> set p \<and> last (py_split CHR ''/'' p) \<notin> {[], ''.''}
        \<longrightarrow> get_image_filename_from_path p = last (path_segments p))"
proof -
  have f: "CHR 0x5C \<notin> set p \<Longrightarrow> last (py_split CHR ''/'' p) \<notin> {[], ''.''}
        \<Longrightarrow> get_image_filename_from_path p = last (path_segments p)"
    by (simp add: get_image_filename_from_path_def posix_name_last path_segments_strip
        normalize_separators_id last_split_strip)
  show ?thesis
    using f by (auto simp: get_spot_folder_find find_None_iff path_segments_def)
qed

theorem get_spot_folder_from_path_spec_witness:
  "get_spot_folder_from_path ''photos/b.jpg'' = None
   \<and> get_image_filename_from_path ''photos/b.jpg'' = ''b.jpg''
   \<and> get_spot_folder_from_path ''images/spot_3/a.jpg'' = Some ''spot_3''"
  using get_spot_folder_from_path_spec [of "''photos/b.jpg''"]
    get_spot_folder_from_path_spec [of "''images/spot_3/a.jpg''"]
  by (simp add: path_segments_def normalize_separators_def backslash_def
      longest_matching_prefix_def prefixes_def)

text \<open>
  C9 as stated fails when \<open>spot_<N>\<close> means \<open>spot_\<close> followed by digits: the first
  segment of \<open>spot_x/spot_3/a.jpg\<close> is returned although it is no such token, and the
  first segment that is one, \<open>spot_3\<close>, is not.
\<close>

theorem spot_token_counterexample:
  "get_spot_folder_from_path ''spot_x/spot_3/a.jpg'' = Some ''spot_x''
   \<and> \<not> is_spot_token ''spot_x''
   \<and> find is_spot_token (path_segments ''spot_x/spot_3/a.jpg'') = Some ''spot_3''"
  by (simp add: get_spot_folder_from_path_def is_spot_token_def path_segments_def
      normalize_separators_def backslash_def longest_matching_prefix_def prefixes_def digit_val_def)

section \<open>The evidence index\<close>

lemma map_of_index_images:
  "map_of (index_images j imgs d) k =
     (if k \<in> set (map image_key (filter (\<lambda>p. p \<noteq> []) (map (\<lambda>img. get_or (local_path img) []) imgs)))
      then Some j else map_of d k)"
  by (induction imgs arbitrary: d) (auto simp: update_conv' Let_def)

lemma map_of_index_location:
  "map_of (index_images j (declared_images l) d) k =
     (if k \<in> set (declared_keys l) then Some j else map_of d k)"
  unfolding declared_keys_def by (rule map_of_index_images)

lemma index_locations_miss:
  "\<forall>l \<in> set ls. k \<notin> set (declared_keys l) \<Longrightarrow>
     map_of (index_locations (enumerate n ls) d) k = map_of d k"
  by (induction ls arbitrary: n d) (simp_all add: map_of_index_location)

lemma index_locations_last:
  "i < length ls \<Longrightarrow> k \<in> set (declared_keys (ls ! i)) \<Longrightarrow>
   \<forall>i'. i < i' \<and> i' < length ls \<longrightarrow> k \<notin> set (declared_keys (ls ! i')) \<Longrightarrow>
     map_of (index_locations (enumerate n ls) d) k = Some (int (n + i))"
proof (induction ls arbitrary: n d i)
  case Nil
  then show ?case by simp
next
  case (Cons l ls)
  show ?case
  proof (cases i)
    case 0
    have "\<forall>l' \<in> set ls. k \<notin> set (declared_keys l')"
    proof
      fix l' assume "l' \<in> set ls"
      then obtain j where j: "j < length ls" "ls ! j = l'"
        by (auto simp: in_set_conv_nth)
      with 0 Cons.prems(3) have "k \<notin> set (declared_keys ((l # ls) ! Suc j))"
        by (metis Suc_less_eq length_Cons zero_less_Suc)
      with j show "k \<notin> set (declared_keys l')" by simp
    qed
    with 0 Cons.prems show ?thesis
      by (simp add: index_locations_miss map_of_index_location)
  next
    case (Suc i')
    with Cons.prems have "i' < length ls" "k \<in> set (declared_keys (ls ! i'))"
      "\<forall>j. i' < j \<and> j < length ls \<longrightarrow> k \<notin> set (declared_keys (ls ! j))"
      by auto
    from Cons.IH [OF this] Suc show ?thesis by simp
  qed
qed

lemma index_locations_dom:
  "(map_of (index_locations (enumerate n ls) d) k \<noteq> None) =
     (map_of d k \<noteq> None \<or> (\<exists>l \<in> set ls. k \<in> set (declared_keys l)))"
  by (induction ls arbitrary: n d) (auto simp: map_of_index_location)

lemma spot_folder_nonempty: "get_spot_folder_from_path p = Some f \<Longrightarrow> prefix ''spot_'' f"
  by (auto simp: get_spot_folder_find find_Some_iff)

lemma image_key_form:
  "image_key p =
     (case get_spot_folder_from_path p of
        None \<Rightarrow> get_image_filename_from_path p
      | Some f \<Rightarrow> f @ ''/'' @ get_image_filename_from_path p)"
  using spot_folder_nonempty [of p] by (auto simp: image_key_def Let_def split: option.splits)

text \<open>
  C7. The key of a declared path is \<open><spotFolder>/<filename>\<close> when a spot folder is
  extracted from it and the bare filename otherwise; a key is in the index exactly when
  some record declares it; and when several records declare a key, the index maps it to
  the position of the last of them in iteration order.
\<close>

theorem evidence_index_later_wins:
  "image_key p =
     (case get_spot_folder_from_path p of
        None \<Rightarrow> get_image_filename_from_path p
      | Some f \<Rightarrow> f @ ''/'' @ get_image_filename_from_path p)
   \<and> ((map_of (image_to_location enriched_data) k \<noteq> None) =
        (\<exists>l \<in> set enriched_data. k \<in> set (declared_keys l)))
   \<and> (i < length enriched_data \<and> k \<in> set (declared_keys (enriched_data ! i))
        \<and> (\<forall>i'. i < i' \<and> i' < length enriched_data \<longrightarrow> k \<notin> set (declared_keys (enriched_data ! i')))
       \<longrightarrow> map_of (image_to_location enriched_data) k = Some (int i))"
  using index_locations_last [of i enriched_data k 0 "[]"] index_locations_dom [of 0 enriched_data "[]" k]
  by (simp add: image_key_form image_to_location_def)


theorem evidence_index_later_wins_witness:
  "map_of (image_to_location
     [\<lparr>latitude = None, longitude = None, loc_description = None,
        google_maps_data = Some \<lparr>place_name = None, g_address = None, g_category = None,
          g_rating = None, g_images = Some [\<lparr>local_path = Some ''images/spot_0/a.jpg''\<rparr>]\<rparr>\<rparr>,
      \<lparr>latitude = None, longitude = None, loc_description = None,
        google_maps_data = Some \<lparr>place_name = None, g_address = None, g_category = None,
          g_rating = None, g_images = Some [\<lparr>local_path = Some ''images/spot_0/a.jpg''\<rparr>]\<rparr>\<rparr>])
     ''spot_0/a.jpg'' = Some 1"
  using evidence_index_later_wins [of "''images/spot_0/a.jpg''"
     "[\<lparr>latitude = None, longitude = None, loc_description = None,
        google_maps_data = Some \<lparr>place_name = None, g_address = None, g_category = None,
          g_rating = None, g_images = Some [\<lparr>local_path = Some ''images/spot_0/a.jpg''\<rparr>]\<rparr>\<rparr>,
      \<lparr>latitude = None, longitude = None, loc_description = None,
        google_maps_data = Some \<lparr>place_name = None, g_address = None, g_category = None,
          g_rating = None, g_images = Some [\<lparr>local_path = Some ''images/spot_0/a.jpg''\<rparr>]\<rparr>\<rparr>]"
     "''spot_0/a.jpg''" 1]
  by (simp add: declared_keys_def declared_images_def google_of_def get_or_def image_key_def
      get_spot_folder_from_path_def get_image_filename_from_path_def posix_name_def
      backslash_def prefixes_def)

section \<open>The vote tally\<close>

lemma py_max_from_snoc:
  "py_max_from key b (xs @ [y]) =
     (let m = py_max_from key b xs in if key m < key y then y else m)"
  by (induction xs arbitrary: b) (simp_all add: Let_def)

lemma py_max_from_first_max:
  assumes "distinct (map fst (b # xs))"
  shows "py_max_from snd b xs \<in> set (b # xs)
    \<and> (\<forall>x \<in> set (b # xs). snd x \<le> snd (py_max_from snd b xs))
    \<and> (\<forall>x \<in> set (b # xs). snd x = snd (py_max_from snd b xs) \<and> x \<noteq> py_max_from snd b xs
          \<longrightarrow> fst x \<notin> set (takeWhile (\<lambda>k. k \<noteq> fst (py_max_from snd b xs)) (map fst (b # xs))))"
  using assms
proof (induction xs rule: rev_induct)
  case Nil
  then show ?case by simp
next
  case (snoc y xs)
  let ?m = "py_max_from snd b xs"
  from snoc.prems have d: "distinct (map fst (b # xs))" and y: "fst y \<notin> fst ` set (b # xs)"
    by auto
  from snoc.IH [OF d] have m: "?m \<in> set (b # xs)"
    and le: "\<forall>x \<in> set (b # xs). snd x \<le> snd ?m"
    and tie: "\<forall>x \<in> set (b # xs). snd x = snd ?m \<and> x \<noteq> ?m
          \<longrightarrow> fst x \<notin> set (takeWhile (\<lambda>k. k \<noteq> fst ?m) (map fst (b # xs)))"
    by blast+
  have set_eq: "set (b # xs @ [y]) = insert y (set (b # xs))" by auto
  show ?case
  proof (cases "snd ?m < snd y")
    case True
    then have r: "py_max_from snd b (xs @ [y]) = y"
      by (simp add: py_max_from_snoc)
    have lt: "snd x < snd y" if "x \<in> set (b # xs)" for x
      using le that True by (meson le_less_trans)
    have 1: "y \<in> set (b # xs @ [y])" by simp
    have 2: "\<forall>x \<in> set (b # xs @ [y]). snd x \<le> snd y"
      unfolding set_eq using lt by (auto simp: less_imp_le)
    have 3: "\<forall>x \<in> set (b # xs @ [y]). snd x = snd y \<and> x \<noteq> y
          \<longrightarrow> fst x \<notin> set (takeWhile (\<lambda>k. k \<noteq> fst y) (map fst (b # xs @ [y])))"
      unfolding set_eq using lt by (metis insertE less_irrefl)
    show ?thesis unfolding r using 1 2 3 by blast
  next
    case False
    then have r: "py_max_from snd b (xs @ [y]) = ?m"
      by (simp add: py_max_from_snoc)
    from m have fm: "fst ?m \<in> set (map fst (b # xs))" by force
    have "map fst (b # xs @ [y]) = map fst (b # xs) @ [fst y]" by simp
    then have tw: "takeWhile (\<lambda>k. k \<noteq> fst ?m) (map fst (b # xs @ [y]))
              = takeWhile (\<lambda>k. k \<noteq> fst ?m) (map fst (b # xs))"
      using fm takeWhile_append1 [of "fst ?m" "map fst (b # xs)" "\<lambda>k. k \<noteq> fst ?m" "[fst y]"]
      by simp
    have "set (takeWhile (\<lambda>k. k \<noteq> fst ?m) (map fst (b # xs))) \<subseteq> fst ` set (b # xs)"
      using set_takeWhileD by fastforce
    with y have yn: "fst y \<notin> set (takeWhile (\<lambda>k. k \<noteq> fst ?m) (map fst (b # xs)))"
      by blast
    have 1: "?m \<in> set (b # xs @ [y])" using m by auto
    have 2: "\<forall>x \<in> set (b # xs @ [y]). snd x \<le> snd ?m"
      unfolding set_eq using le False by (auto simp: not_less)
    have 3: "\<forall>x \<in> set (b # xs @ [y]). snd x = snd ?m \<and> x \<noteq> ?m
          \<longrightarrow> fst x \<notin> set (takeWhile (\<lambda>k. k \<noteq> fst ?m) (map fst (b # xs)))"
      unfolding set_eq using tie yn by blast
    show ?thesis unfolding r tw using 1 2 3 by blast
  qed
qed

lemma map_of_tally:
  "map_of (tally inner ls) l =
     (if l \<in> set ls then Some (get_or (map_of inner l) 0 + count_list ls l) else map_of inner l)"
  by (induction ls arbitrary: inner) (auto simp: update_conv' get_or_def)

lemma distinct_tally: "distinct (map fst inner) \<Longrightarrow> distinct (map fst (tally inner ls))"
  by (induction ls arbitrary: inner) (simp_all add: distinct_update)

lemma first_dup_irrelevant:
  assumes "x \<in> set xs"
  shows "(a \<in> set (xs @ x # ys) \<and> b \<notin> set (takeWhile (\<lambda>k. k \<noteq> a) (xs @ x # ys)))
       = (a \<in> set (xs @ ys) \<and> b \<notin> set (takeWhile (\<lambda>k. k \<noteq> a) (xs @ ys)))"
proof (cases "a \<in> set xs")
  case True
  then show ?thesis
    using takeWhile_append1 [of a xs "\<lambda>k. k \<noteq> a"] by (auto simp: takeWhile_append)
next
  case False
  with assms have "x \<noteq> a" by auto
  with False assms show ?thesis
    by (auto simp: takeWhile_append)
qed

lemma tally_order:
  "(a \<in> set (map fst (tally inner ls))
      \<and> b \<notin> set (takeWhile (\<lambda>k. k \<noteq> a) (map fst (tally inner ls))))
   = (a \<in> set (map fst inner @ ls) \<and> b \<notin> set (takeWhile (\<lambda>k. k \<noteq> a) (map fst inner @ ls)))"
proof (induction ls arbitrary: inner)
  case Nil
  then show ?case by simp
next
  case (Cons l ls)
  show ?case
  proof (cases "l \<in> set (map fst inner)")
    case True
    then show ?thesis
      using Cons.IH [of "AList.update l (get_or (map_of inner l) 0 + 1) inner"]
        first_dup_irrelevant [of l "map fst inner" a ls b]
      by (simp add: update_keys)
  next
    case False
    then show ?thesis
      using Cons.IH [of "AList.update l (get_or (map_of inner l) 0 + 1) inner"]
      by (simp add: update_keys)
  qed
qed

lemma count_folder_votes_tally:
  "count_folder_votes index folder files vs =
     (if folder_votes index folder files = [] then vs
      else AList.update folder
             (tally (get_or (map_of vs folder) []) (folder_votes index folder files)) vs)"
proof (induction files arbitrary: vs)
  case Nil
  then show ?case by simp
next
  case (Cons f fs)
  show ?case
  proof (cases "map_of index (folder @ ''/'' @ f)")
    case None
    then show ?thesis using Cons.IH [of vs] by simp
  next
    case (Some l)
    let ?inner = "AList.update l (Suc (get_or (map_of (get_or (map_of vs folder) []) l) 0))
                    (get_or (map_of vs folder) [])"
    have av: "add_vote folder l vs = AList.update folder ?inner vs"
      by (simp add: add_vote_def Let_def)
    have g: "get_or (map_of (AList.update folder ?inner vs) folder) [] = ?inner"
      by (simp add: update_conv' get_or_def)
    have step: "count_folder_votes index folder (f # fs) vs
                  = count_folder_votes index folder fs (AList.update folder ?inner vs)"
      using Some by (simp add: av)
    have fv: "folder_votes index folder (f # fs) = l # folder_votes index folder fs"
      using Some by simp
    have t: "tally (get_or (map_of vs folder) []) (l # ls) = tally ?inner ls" for ls
      by simp
    show ?thesis
      unfolding step fv Cons.IH [of "AList.update folder ?inner vs"] g t
      by simp
  qed
qed

lemma distinct_count_folder_votes:
  "distinct (map fst vs) \<Longrightarrow> distinct (map fst (count_folder_votes index folder files vs))"
  by (simp add: count_folder_votes_tally distinct_update)

lemma distinct_count_votes:
  "distinct (map fst vs) \<Longrightarrow> distinct (map fst (count_votes index existing vs))"
  by (induction existing arbitrary: vs) (auto simp: distinct_count_folder_votes)

lemma map_of_count_folder_votes:
  "map_of (count_folder_votes index folder files vs) k =
     (if k = folder \<and> folder_votes index folder files \<noteq> []
      then Some (tally (get_or (map_of vs folder) []) (folder_votes index folder files))
      else map_of vs k)"
  by (simp add: count_folder_votes_tally update_conv')

lemma map_of_count_votes_other:
  "folder \<notin> fst ` set existing \<Longrightarrow>
     map_of (count_votes index existing vs) folder = map_of vs folder"
  by (induction existing arbitrary: vs) (auto simp: map_of_count_folder_votes)

lemma map_of_count_votes:
  "distinct (map fst existing) \<Longrightarrow> map_of existing folder = Some files \<Longrightarrow>
     map_of (count_votes index existing vs) folder =
       (if folder_votes index folder files = [] then map_of vs folder
        else Some (tally (get_or (map_of vs folder) []) (folder_votes index folder files)))"
proof (induction existing arbitrary: vs)
  case Nil
  then show ?case by simp
next
  case (Cons e existing)
  obtain f fs where e: "e = (f, fs)" by (cases e)
  show ?case
  proof (cases "f = folder")
    case True
    with Cons.prems e have "fs = files" "folder \<notin> fst ` set existing" by auto
    with True e show ?thesis
      by (simp add: map_of_count_votes_other map_of_count_folder_votes)
  next
    case False
    with Cons.prems e have "distinct (map fst existing)" "map_of existing folder = Some files"
      by auto
    from Cons.IH [OF this] False e show ?thesis
      by (simp add: map_of_count_folder_votes)
  qed
qed

lemma map_of_choose_locations:
  "distinct (map fst vs) \<Longrightarrow>
     map_of (choose_locations vs s) folder =
       (case map_of vs folder of
          None \<Rightarrow> map_of s folder
        | Some [] \<Rightarrow> map_of s folder
        | Some (v # r) \<Rightarrow> Some (fst (py_max_from snd v r)))"
proof (induction vs s rule: choose_locations.induct)
  case (1 s)
  then show ?case by simp
next
  case (2 f rest s)
  then have d: "distinct (map fst rest)" and n: "map_of rest f = None"
    by (auto simp: map_of_eq_None_iff)
  from "2.IH" [OF d] n show ?case by (cases "folder = f") simp_all
next
  case (3 f v r rest s)
  then have d: "distinct (map fst rest)" and n: "map_of rest f = None"
    by (auto simp: map_of_eq_None_iff)
  from "3.IH" [OF d] n show ?case
    by (cases "folder = f") (auto simp: update_conv' split: option.splits list.splits)
qed

lemma distinct_scan_spots:
  "distinct (map fst existing) \<Longrightarrow> distinct (map fst (scan_spots listing existing))"
  by (induction listing existing rule: scan_spots.induct) (simp_all add: distinct_update)

lemma tally_nonempty: "inner \<noteq> [] \<or> ls \<noteq> [] \<Longrightarrow> tally inner ls \<noteq> []"
  by (induction ls arbitrary: inner) simp_all

lemma tally_winner:
  assumes "vs \<noteq> []" and T: "tally [] vs = v # r"
  shows "fst (py_max_from snd v r) \<in> set vs
    \<and> (\<forall>l'. count_list vs l' \<le> count_list vs (fst (py_max_from snd v r)))
    \<and> (\<forall>l'. l' \<noteq> fst (py_max_from snd v r)
              \<and> count_list vs l' = count_list vs (fst (py_max_from snd v r))
          \<longrightarrow> l' \<notin> set (takeWhile (\<lambda>x. x \<noteq> fst (py_max_from snd v r)) vs))"
proof -
  let ?m = "py_max_from snd v r"
  have d: "distinct (map fst (v # r))"
    using distinct_tally [of "[]" vs] T by simp
  have mem: "((l, c) \<in> set (v # r)) = (l \<in> set vs \<and> c = count_list vs l)" for l c
  proof -
    have "((l, c) \<in> set (v # r)) = (map_of (v # r) l = Some c)"
      using d by (metis map_of_eq_Some_iff)
    also have "\<dots> = (l \<in> set vs \<and> c = count_list vs l)"
      unfolding T [symmetric] map_of_tally by (auto simp: get_or_def)
    finally show ?thesis .
  qed
  from py_max_from_first_max [OF d]
  have m: "?m \<in> set (v # r)"
    and le: "\<forall>x \<in> set (v # r). snd x \<le> snd ?m"
    and tie: "\<forall>x \<in> set (v # r). snd x = snd ?m \<and> x \<noteq> ?m
          \<longrightarrow> fst x \<notin> set (takeWhile (\<lambda>k. k \<noteq> fst ?m) (map fst (v # r)))"
    by blast+
  from m mem [of "fst ?m" "snd ?m"] have l: "fst ?m \<in> set vs" and c: "snd ?m = count_list vs (fst ?m)"
    by simp_all
  have 2: "count_list vs l' \<le> count_list vs (fst ?m)" for l'
  proof (cases "l' \<in> set vs")
    case True
    then have "(l', count_list vs l') \<in> set (v # r)"
      using mem [of l' "count_list vs l'"] by blast
    with le c show ?thesis by fastforce
  next
    case False
    then show ?thesis by (simp add: count_list_0_iff)
  qed
  have 3: "l' \<notin> set (takeWhile (\<lambda>x. x \<noteq> fst ?m) vs)"
    if "l' \<noteq> fst ?m" "count_list vs l' = count_list vs (fst ?m)" for l'
  proof (cases "l' \<in> set vs")
    case True
    then have x: "(l', count_list vs l') \<in> set (v # r)"
      using mem [of l' "count_list vs l'"] by blast
    have "(l', count_list vs l') \<noteq> ?m" using that(1) by (metis fst_conv)
    with tie x that(2) c
    have "l' \<notin> set (takeWhile (\<lambda>k. k \<noteq> fst ?m) (map fst (v # r)))" by fastforce
    moreover have "fst ?m \<in> set (map fst (v # r))" using m by force
    ultimately show ?thesis
      using tally_order [of "fst ?m" "[]" vs l'] T by simp
  next
    case False
    then show ?thesis using set_takeWhileD by fastforce
  qed
  show ?thesis using l 2 3 by blast
qed

text \<open>
  C2 (as amended). For a folder of the inventory, let its votes be the locations its files
  are mapped to by the index, in file order. With no vote the folder is left out of the
  mapping. Otherwise it is assigned a location that has a vote and the highest vote
  count, and among the locations tied on that count the one whose first vote comes
  earliest in file order: no tied location has a vote before the winner's first vote.
\<close>

theorem vote_winner_first_max:
  assumes "map_of (scan_spots listing []) folder = Some files"
  shows "let vs = folder_votes (image_to_location enriched_data) folder files;
             r = map_of (build_spot_to_location_mapping enriched_data listing) folder
         in (vs = [] \<longrightarrow> r = None)
          \<and> (vs \<noteq> [] \<longrightarrow> (\<exists>l. r = Some l \<and> l \<in> set vs
                \<and> (\<forall>l'. count_list vs l' \<le> count_list vs l)
                \<and> (\<forall>l'. l' \<noteq> l \<and> count_list vs l' = count_list vs l
                      \<longrightarrow> l' \<notin> set (takeWhile (\<lambda>x. x \<noteq> l) vs))))"
proof -
  let ?index = "image_to_location enriched_data"
  let ?existing = "scan_spots listing []"
  let ?votes = "count_votes ?index ?existing []"
  let ?vs = "folder_votes ?index folder files"
  have de: "distinct (map fst ?existing)"
    by (simp add: distinct_scan_spots)
  have dv: "distinct (map fst ?votes)"
    by (simp add: distinct_count_votes)
  have mv: "map_of ?votes folder = (if ?vs = [] then None else Some (tally [] ?vs))"
    using map_of_count_votes [OF de assms, of ?index "[]"] by (simp add: get_or_def)
  have r: "map_of (build_spot_to_location_mapping enriched_data listing) folder =
       (case map_of ?votes folder of None \<Rightarrow> None | Some [] \<Rightarrow> None
        | Some (v # r) \<Rightarrow> Some (fst (py_max_from snd v r)))"
    using map_of_choose_locations [OF dv, of "[]" folder]
    by (auto simp: build_spot_to_location_mapping_def Let_def split: option.splits list.splits)
  show ?thesis
  proof (cases "?vs = []")
    case True
    with r mv show ?thesis by (simp add: Let_def)
  next
    case False
    then obtain v r' where T: "tally [] ?vs = v # r'"
      using tally_nonempty [of "[]" ?vs] by (cases "tally [] ?vs") auto
    from r mv False T
    have "map_of (build_spot_to_location_mapping enriched_data listing) folder
            = Some (fst (py_max_from snd v r'))" by simp
    with tally_winner [OF False T] False show ?thesis
      unfolding Let_def by blast
  qed
qed

theorem vote_winner_first_max_witness:
  "map_of (build_spot_to_location_mapping
      [\<lparr>latitude = None, longitude = None, loc_description = None,
         google_maps_data = Some \<lparr>place_name = None, g_address = None, g_category = None,
           g_rating = None, g_images = Some [\<lparr>local_path = Some ''images/spot_3/a.jpg''\<rparr>,
             \<lparr>local_path = Some ''images/spot_3/b.jpg''\<rparr>]\<rparr>\<rparr>]
      [(''spot_3'', [''a.jpg'', ''b.jpg''])]) ''spot_3'' = Some 0"
  using vote_winner_first_max [of "[(''spot_3'', [''a.jpg'', ''b.jpg''])]" "''spot_3''"
      "[''a.jpg'', ''b.jpg'']"
      "[\<lparr>latitude = None, longitude = None, loc_description = None,
         google_maps_data = Some \<lparr>place_name = None, g_address = None, g_category = None,
           g_rating = None, g_images = Some [\<lparr>local_path = Some ''images/spot_3/a.jpg''\<rparr>,
             \<lparr>local_path = Some ''images/spot_3/b.jpg''\<rparr>]\<rparr>\<rparr>]"]
  by (simp add: Let_def image_to_location_def declared_images_def google_of_def get_or_def
      image_key_def get_spot_folder_from_path_def get_image_filename_from_path_def posix_name_def
      backslash_def prefixes_def)

text \<open>
  C2 as stated fails on a tie: locations 1 and 0 have one vote each, the vote for 1 comes
  first, and the folder is assigned 1, not the lower index 0.
\<close>

theorem vote_tie_counterexample:
  "folder_votes (image_to_location
      [\<lparr>latitude = None, longitude = None, loc_description = None,
         google_maps_data = Some \<lparr>place_name = None, g_address = None, g_category = None,
           g_rating = None, g_images = Some [\<lparr>local_path = Some ''images/spot_3/b.jpg''\<rparr>]\<rparr>\<rparr>,
       \<lparr>latitude = None, longitude = None, loc_description = None,
         google_maps_data = Some \<lparr>place_name = None, g_address = None, g_category = None,
           g_rating = None, g_images = Some [\<lparr>local_path = Some ''images/spot_3/a.jpg''\<rparr>]\<rparr>\<rparr>])
     ''spot_3'' [''a.jpg'', ''b.jpg''] = [1, 0]
   \<and> build_spot_to_location_mapping
      [\<lparr>latitude = None, longitude = None, loc_description = None,
         google_maps_data = Some \<lparr>place_name = None, g_address = None, g_category = None,
           g_rating = None, g_images = Some [\<lparr>local_path = Some ''images/spot_3/b.jpg''\<rparr>]\<rparr>\<rparr>,
       \<lparr>latitude = None, longitude = None, loc_description = None,
         google_maps_data = Some \<lparr>place_name = None, g_address = None, g_category = None,
           g_rating = None, g_images = Some [\<lparr>local_path = Some ''images/spot_3/a.jpg''\<rparr>]\<rparr>\<rparr>]
      [(''spot_3'', [''a.jpg'', ''b.jpg''])] = [(''spot_3'', 1)]"
  by (simp add: build_spot_to_location_mapping_def image_to_location_def declared_images_def
      google_of_def get_or_def image_key_def get_spot_folder_from_path_def
      get_image_filename_from_path_def posix_name_def backslash_def prefixes_def add_vote_def)

section \<open>Injectivity of the folder mapping\<close>

lemma update_new: "k \<notin> set (map fst al) \<Longrightarrow> AList.update k v al = al @ [(k, v)]"
  by (induction al) auto

lemma distinct_map_locations:
  "distinct (map fst l2s) \<Longrightarrow> distinct (map fst (map_locations xs l2s))"
  by (induction xs l2s rule: map_locations.induct) (auto simp: distinct_update split: list.splits)

lemma map_declared_inv:
  "distinct (map fst l2s) \<Longrightarrow> distinct (map fst s) \<Longrightarrow> distinct (map snd s) \<Longrightarrow>
   set (map snd s) \<inter> set (map fst l2s) = {} \<Longrightarrow>
     distinct (map fst (map_declared l2s ex s)) \<and> distinct (map snd (map_declared l2s ex s))"
proof (induction l2s arbitrary: s)
  case Nil
  then show ?case by simp
next
  case (Cons p rest)
  obtain loc_idx spot_folder where p: "p = (loc_idx, spot_folder)" by (cases p)
  show ?case
  proof (cases "spot_folder \<in> set (map fst ex) \<and> spot_folder \<notin> set (map fst s)")
    case True
    then have u: "AList.update spot_folder loc_idx s = s @ [(spot_folder, loc_idx)]"
      by (simp add: update_new)
    have st: "map_declared (p # rest) ex s = map_declared rest ex (s @ [(spot_folder, loc_idx)])"
      using True p u by simp
    have "distinct (map fst rest)" "distinct (map fst (s @ [(spot_folder, loc_idx)]))"
      "distinct (map snd (s @ [(spot_folder, loc_idx)]))"
      "set (map snd (s @ [(spot_folder, loc_idx)])) \<inter> set (map fst rest) = {}"
      using Cons.prems True p by auto
    from Cons.IH [OF this] show ?thesis unfolding st .
  next
    case False
    then have st: "map_declared (p # rest) ex s = map_declared rest ex s"
      using p by auto
    have "distinct (map fst rest)" "set (map snd s) \<inter> set (map fst rest) = {}"
      using Cons.prems by auto
    from Cons.IH [OF this(1) Cons.prems(2,3) this(2)] show ?thesis unfolding st .
  qed
qed

lemma map_fallback_inv:
  "map_fallback u data fs (s, M) = Inr (s', M') \<Longrightarrow>
   distinct (map fst s) \<Longrightarrow> distinct (map snd s) \<Longrightarrow> M = set (map snd s) \<Longrightarrow>
     distinct (map fst s') \<and> distinct (map snd s') \<and> M' = set (map snd s') \<and> prefix s s'"
proof (induction fs arbitrary: s M)
  case Nil
  then show ?case by auto
next
  case (Cons f fs)
  let ?idx = "py_int u (py_replace ''spot_'' [] f)"
  show ?case
  proof (cases "f \<notin> set (map fst s) \<and> (\<exists>i. ?idx = Some i \<and> i < int (length data) \<and> i \<notin> M
        \<and> (\<exists>l. py_index data i = Inr l \<and> (location_spots l = {} \<or> Some f \<in> location_spots l)))")
    case True
    then obtain i l where i: "?idx = Some i" "i < int (length data)" "i \<notin> M"
      "py_index data i = Inr l" "location_spots l = {} \<or> Some f \<in> location_spots l"
      by blast
    from True have u: "AList.update f i s = s @ [(f, i)]"
      by (simp add: update_new)
    have st: "map_fallback u data (f # fs) (s, M) = map_fallback u data fs (s @ [(f, i)], insert i M)"
      using True i u by auto
    have "distinct (map fst (s @ [(f, i)]))" "distinct (map snd (s @ [(f, i)]))"
      "insert i M = set (map snd (s @ [(f, i)]))"
      using Cons.prems True i by auto
    from Cons.IH [OF Cons.prems(1) [unfolded st] this]
    show ?thesis by (auto dest: append_prefixD)
  next
    case False
    then have st: "map_fallback u data (f # fs) (s, M) = map_fallback u data fs (s, M)
                   \<or> (\<exists>e. map_fallback u data (f # fs) (s, M) = Inl e)"
      by (auto split: option.splits sum.splits)
    with Cons.prems(1) have "map_fallback u data fs (s, M) = Inr (s', M')" by auto
    from Cons.IH [OF this Cons.prems(2-4)] show ?thesis .
  qed
qed


lemma distinct_values_inj:
  "distinct (map snd m) \<Longrightarrow> map_of m f = Some l \<Longrightarrow> map_of m g = Some l \<Longrightarrow> f = g"
proof -
  assume d: "distinct (map snd m)" and f: "map_of m f = Some l" and g: "map_of m g = Some l"
  from d have "inj_on snd (set m)" by (simp add: distinct_map)
  moreover from f g have "(f, l) \<in> set m" "(g, l) \<in> set m"
    by (auto dest: map_of_SomeD)
  ultimately have "(f, l) = (g, l)"
    using inj_onD [of snd "set m" "(f, l)" "(g, l)"] by simp
  then show "f = g" by simp
qed

section \<open>The ids of the assembled spots\<close>

lemma py_index_ok: "- int (length xs) \<le> i \<Longrightarrow> i < int (length xs) \<Longrightarrow> \<exists>x. py_index xs i = Inr x"
  by (auto simp: py_index_def Let_def)

lemma located_spot_id [simp]: "spot_id (located_spot n i l imgs) = int n + 1"
  by (simp add: located_spot_def)

lemma unlocated_spot_id [simp]: "spot_id (unlocated_spot u n f imgs) = int n + 1"
  by (simp add: unlocated_spot_def Let_def)

lemma build_spots_ids:
  assumes "\<forall>v \<in> snd ` set s2l. - int (length data) \<le> v"
  shows "\<exists>out. build_spots u s2l data ex keys acc = Inr out
           \<and> map spot_id out = map spot_id acc @ map (\<lambda>i. int i + 1) [length acc..<length acc + length keys]"
proof (induction keys arbitrary: acc)
  case Nil
  then show ?case by simp
next
  case (Cons k keys)
  have step: "\<exists>sp. spot_id sp = int (length acc) + 1
        \<and> build_spots u s2l data ex (k # keys) acc = build_spots u s2l data ex keys (acc @ [sp])"
  proof (cases "map_of s2l k")
    case None
    then show ?thesis
      by (intro exI [of _ "unlocated_spot u (length acc) k (spot_images ex k)"]) (simp add: Let_def)
  next
    case (Some v)
    show ?thesis
    proof (cases "v < int (length data)")
      case True
      from Some have "v \<in> snd ` set s2l" by (force dest: map_of_SomeD)
      with assms True obtain l where "py_index data v = Inr l"
        using py_index_ok by blast
      with Some True show ?thesis
        by (intro exI [of _ "located_spot (length acc) v l (spot_images ex k)"]) (simp add: Let_def)
    next
      case False
      with Some show ?thesis
        by (intro exI [of _ "unlocated_spot u (length acc) k (spot_images ex k)"]) (simp add: Let_def)
    qed
  qed
  then obtain sp where sp: "spot_id sp = int (length acc) + 1"
    "build_spots u s2l data ex (k # keys) acc = build_spots u s2l data ex keys (acc @ [sp])"
    by blast
  from Cons.IH [of "acc @ [sp]"] obtain out where out:
    "build_spots u s2l data ex keys (acc @ [sp]) = Inr out"
    "map spot_id out = map spot_id (acc @ [sp])
        @ map (\<lambda>i. int i + 1) [length (acc @ [sp])..<length (acc @ [sp]) + length keys]"
    by blast
  have "[length acc..<length acc + length (k # keys)]
          = length acc # [Suc (length acc)..<Suc (length acc) + length keys]"
    by (simp add: upt_rec)
  with out sp show ?case by simp
qed


lemma py_max_from_mem: "py_max_from key b xs \<in> set (b # xs)"
  by (induction xs arbitrary: b) auto

lemma update_entry: "p \<in> set (AList.update k v al) \<Longrightarrow> p = (k, v) \<or> p \<in> set al"
  by (induction al) (auto split: if_splits)

lemma index_images_values:
  "p \<in> set (index_images j imgs d) \<Longrightarrow> snd p = j \<or> p \<in> set d"
proof (induction imgs arbitrary: d)
  case Nil
  then show ?case by simp
next
  case (Cons i imgs)
  show ?case
  proof (cases "get_or (local_path i) [] \<noteq> []")
    case True
    with Cons.prems have "p \<in> set (index_images j imgs
        (AList.update (image_key (get_or (local_path i) [])) j d))"
      by (simp add: Let_def)
    from Cons.IH [OF this] show ?thesis
      using update_entry [of p "image_key (get_or (local_path i) [])" j d] by auto
  next
    case False
    with Cons.prems have "p \<in> set (index_images j imgs d)" by (simp add: Let_def)
    from Cons.IH [OF this] show ?thesis .
  qed
qed

lemma index_locations_values:
  "\<forall>q \<in> set d. 0 \<le> snd q \<Longrightarrow> p \<in> set (index_locations (enumerate n ls) d) \<Longrightarrow> 0 \<le> snd p"
proof (induction ls arbitrary: n d)
  case Nil
  then show ?case by simp
next
  case (Cons l ls)
  have "\<forall>q \<in> set (index_images (int n) (declared_images l) d). 0 \<le> snd q"
    using index_images_values [of _ "int n" "declared_images l" d] Cons.prems(1)
    by fastforce
  from Cons.IH [OF this] Cons.prems(2) show ?case by simp
qed

lemma image_to_location_values: "p \<in> set (image_to_location data) \<Longrightarrow> 0 \<le> snd p"
  unfolding image_to_location_def using index_locations_values [of "[]" p 0 data] by simp

lemma add_vote_keys:
  assumes "\<forall>e \<in> set vs. \<forall>q \<in> set (snd e). P (fst q)" and "P l"
  shows "\<forall>e \<in> set (add_vote folder l vs). \<forall>q \<in> set (snd e). P (fst q)"
proof -
  let ?inner = "get_or (map_of vs folder) []"
  have i: "\<forall>q \<in> set ?inner. P (fst q)"
  proof (cases "map_of vs folder")
    case None
    then show ?thesis by (simp add: get_or_def)
  next
    case (Some inner)
    then have "(folder, inner) \<in> set vs" by (rule map_of_SomeD)
    with assms(1) Some show ?thesis by (fastforce simp: get_or_def)
  qed
  let ?new = "AList.update l (get_or (map_of ?inner l) 0 + 1) ?inner"
  have n: "\<forall>q \<in> set ?new. P (fst q)"
    using i assms(2) update_entry [of _ l "get_or (map_of ?inner l) 0 + 1" ?inner] by fastforce
  show ?thesis
  proof
    fix e assume "e \<in> set (add_vote folder l vs)"
    then have "e = (folder, ?new) \<or> e \<in> set vs"
      unfolding add_vote_def Let_def by (rule update_entry)
    with n assms(1) show "\<forall>q \<in> set (snd e). P (fst q)" by auto
  qed
qed

lemma count_folder_votes_keys:
  "\<forall>e \<in> set vs. \<forall>q \<in> set (snd e). P (fst q) \<Longrightarrow> \<forall>p \<in> set index. P (snd p) \<Longrightarrow>
   \<forall>e \<in> set (count_folder_votes index folder files vs). \<forall>q \<in> set (snd e). P (fst q)"
proof (induction files arbitrary: vs)
  case Nil
  then show ?case by simp
next
  case (Cons x xs)
  show ?case
  proof (cases "map_of index (folder @ ''/'' @ x)")
    case None
    with Cons show ?thesis by simp
  next
    case (Some l)
    then have "(folder @ ''/'' @ x, l) \<in> set index" by (rule map_of_SomeD)
    with Cons.prems(2) have "P l" by fastforce
    from add_vote_keys [of vs P, OF Cons.prems(1) this]
    have "\<forall>e \<in> set (add_vote folder l vs). \<forall>q \<in> set (snd e). P (fst q)" .
    from Cons.IH [OF this Cons.prems(2)] Some show ?thesis by simp
  qed
qed

lemma count_votes_keys:
  "\<forall>e \<in> set vs. \<forall>q \<in> set (snd e). P (fst q) \<Longrightarrow> \<forall>p \<in> set index. P (snd p) \<Longrightarrow>
   \<forall>e \<in> set (count_votes index existing vs). \<forall>q \<in> set (snd e). P (fst q)"
proof (induction existing arbitrary: vs)
  case Nil
  then show ?case by simp
next
  case (Cons e existing)
  obtain f fs where e: "e = (f, fs)" by (cases e)
  from Cons.IH [OF count_folder_votes_keys [OF Cons.prems] Cons.prems(2)] e show ?case by simp
qed

lemma choose_locations_values:
  "\<forall>e \<in> set vs. \<forall>q \<in> set (snd e). P (fst q) \<Longrightarrow> \<forall>p \<in> set s. P (snd p) \<Longrightarrow>
   \<forall>p \<in> set (choose_locations vs s). P (snd p)"
proof (induction vs s rule: choose_locations.induct)
  case (1 s)
  then show ?case by simp
next
  case (2 f rest s)
  then show ?case by simp
next
  case (3 f v r rest s)
  have "py_max_from snd v r \<in> set (v # r)" by (rule py_max_from_mem)
  with "3.prems"(1) have m: "P (fst (py_max_from snd v r))" by fastforce
  have u: "\<forall>p \<in> set (AList.update f (fst (py_max_from snd v r)) s). P (snd p)"
    using m "3.prems"(2) update_entry [of _ f "fst (py_max_from snd v r)" s] by fastforce
  from "3.prems"(1) have "\<forall>e \<in> set rest. \<forall>q \<in> set (snd e). P (fst q)" by simp
  from "3.IH" [OF this u] show ?case by simp
qed

lemma build_spot_to_location_mapping_values:
  "p \<in> set (build_spot_to_location_mapping data listing) \<Longrightarrow> 0 \<le> snd p"
proof -
  let ?index = "image_to_location data"
  have i: "\<forall>p \<in> set ?index. 0 \<le> snd p"
    using image_to_location_values by blast
  have "\<forall>e \<in> set (count_votes ?index (scan_spots listing []) []). \<forall>q \<in> set (snd e). 0 \<le> fst q"
    by (rule count_votes_keys [OF _ i]) simp
  from choose_locations_values [of _ "\<lambda>v. 0 \<le> v" "[]", OF this]
  show "p \<in> set (build_spot_to_location_mapping data listing) \<Longrightarrow> 0 \<le> snd p"
    unfolding build_spot_to_location_mapping_def Let_def by simp
qed

text \<open>
  C8 (as amended). Whatever the enrichment records and the listing are, the second
  version of \<open>fix_spots_json\<close> returns one spot per folder of the inventory, and their ids
  are 1, 2, ..., N in output order, whichever folders are resolved.
\<close>

theorem fix_spots_json_ids:
  "\<exists>spots. fix_spots_json_v2 u enriched_data listing = Inr spots
     \<and> length spots = length (get_existing_images listing)
     \<and> map spot_id spots = map int [1..<Suc (length (get_existing_images listing))]"
proof -
  have "\<forall>v \<in> snd ` set (build_spot_to_location_mapping enriched_data listing).
          - int (length enriched_data) \<le> v"
    using build_spot_to_location_mapping_values [of _ enriched_data listing] by fastforce
  from build_spots_ids [OF this, where u = u and ex = "get_existing_images listing"
      and keys = "sort (map fst (get_existing_images listing))" and acc = "[]"]
  obtain out where out: "fix_spots_json_v2 u enriched_data listing = Inr out"
    "map spot_id out = map (\<lambda>i. int i + 1) [0..<length (get_existing_images listing)]"
    by (auto simp: fix_spots_json_v2_def Let_def)
  from out(2) have "length out = length (get_existing_images listing)"
    by (metis length_map length_upt minus_nat.diff_0)
  with out show ?thesis by (simp add: upt_shift_int)
qed

theorem fix_spots_json_ids_witness:
  "\<forall>to_ascii. \<exists>spots. fix_spots_json_v2 to_ascii
      [\<lparr>latitude = Some 3.1, longitude = Some 101.6, loc_description = None,
         google_maps_data = Some \<lparr>place_name = Some ''KLCC Park'', g_address = None,
           g_category = None, g_rating = None,
           g_images = Some [\<lparr>local_path = Some ''images/spot_7/a.jpg''\<rparr>]\<rparr>\<rparr>]
      [(''spot_7'', [''a.jpg'']), (''spot_2'', [''b.jpg'']), (''other'', [''c.jpg''])] = Inr spots
    \<and> map spot_id spots = [1, 2, 3]"
proof
  fix to_ascii
  show "\<exists>spots. fix_spots_json_v2 to_ascii
      [\<lparr>latitude = Some 3.1, longitude = Some 101.6, loc_description = None,
         google_maps_data = Some \<lparr>place_name = Some ''KLCC Park'', g_address = None,
           g_category = None, g_rating = None,
           g_images = Some [\<lparr>local_path = Some ''images/spot_7/a.jpg''\<rparr>]\<rparr>\<rparr>]
      [(''spot_7'', [''a.jpg'']), (''spot_2'', [''b.jpg'']), (''other'', [''c.jpg''])] = Inr spots
    \<and> map spot_id spots = [1, 2, 3]"
    using fix_spots_json_ids
     [of to_ascii "[\<lparr>latitude = Some 3.1, longitude = Some 101.6, loc_description = None,
         google_maps_data = Some \<lparr>place_name = Some ''KLCC Park'', g_address = None,
           g_category = None, g_rating = None,
           g_images = Some [\<lparr>local_path = Some ''images/spot_7/a.jpg''\<rparr>]\<rparr>\<rparr>]"
         "[(''spot_7'', [''a.jpg'']), (''spot_2'', [''b.jpg'']), (''other'', [''c.jpg''])]"]
    by (auto simp: get_existing_images_def upt_rec)
qed

text \<open>
  C8 as stated fails for \<open>update_spots_json\<close>, whose ids are the folder indices plus one
  and which skips a folder whose name holds no integer: the folders \<open>spot_0\<close> and
  \<open>spot_2\<close> give the ids 1 and 3, and of \<open>spot_0\<close> and \<open>spot_x\<close> only one spot is built.
\<close>

theorem update_spots_json_ids_counterexample:
  "\<forall>to_ascii.
     map_sum id (map spot_id)
       (update_spots_json to_ascii [] [(''spot_0'', [''a.jpg'']), (''spot_2'', [''b.jpg''])])
       = Inr [1, 3]
     \<and> map_sum id (map spot_id)
       (update_spots_json to_ascii [] [(''spot_0'', [''a.jpg'']), (''spot_x'', [''b.jpg''])])
       = Inr [1]"
proof
  fix to_ascii
  show "map_sum id (map spot_id)
       (update_spots_json to_ascii [] [(''spot_0'', [''a.jpg'']), (''spot_2'', [''b.jpg''])])
       = Inr [1, 3]
     \<and> map_sum id (map spot_id)
       (update_spots_json to_ascii [] [(''spot_0'', [''a.jpg'']), (''spot_x'', [''b.jpg''])])
       = Inr [1]"
    by code_simp
qed


section \<open>The positional fallback\<close>

lemma map_fallback_step_nonneg:
  assumes "f \<notin> set (map fst s)" "py_int u (py_replace ''spot_'' [] f) = Some i" "0 \<le> i"
  shows "map_fallback u data (f # fs) (s, M) =
     map_fallback u data fs
       (if i < int (length data) \<and> i \<notin> M
           \<and> (location_spots (data ! nat i) = {} \<or> Some f \<in> location_spots (data ! nat i))
        then (AList.update f i s, insert i M) else (s, M))"
proof (cases "i < int (length data)")
  case True
  with assms(3) have "py_index data i = Inr (data ! nat i)"
    by (simp add: py_index_def Let_def)
  with assms(1,2) True show ?thesis by simp
next
  case False
  with assms(1,2) show ?thesis by simp
qed

lemma map_fallback_skip:
  assumes "f \<in> set (map fst s) \<or> py_int u (py_replace ''spot_'' [] f) = None"
  shows "map_fallback u data (f # fs) (s, M) = map_fallback u data fs (s, M)"
  using assms by auto

text \<open>
  C5. The fallback tests \<open>spot_idx < len(enriched_data)\<close> and nothing else before it reads
  \<open>enriched_data[spot_idx]\<close>: the folder \<open>spot_-5\<close> with one record raises \<open>IndexError\<close>
  instead of staying unresolved, and the folder \<open>spot_-1\<close> is assigned the index -1.
\<close>

theorem fallback_negative_index:
  "\<forall>to_ascii.
     spot_to_location_v1 to_ascii
       [\<lparr>latitude = None, longitude = None, loc_description = None, google_maps_data = None\<rparr>]
       [(''spot_-5'', [''a.jpg''])] = Inl IndexError
     \<and> spot_to_location_v1 to_ascii
       [\<lparr>latitude = None, longitude = None, loc_description = None, google_maps_data = None\<rparr>]
       [(''spot_-1'', [''a.jpg''])] = Inr ([(''spot_-1'', - 1)], {- 1})"
proof
  fix to_ascii
  show "spot_to_location_v1 to_ascii
       [\<lparr>latitude = None, longitude = None, loc_description = None, google_maps_data = None\<rparr>]
       [(''spot_-5'', [''a.jpg''])] = Inl IndexError
     \<and> spot_to_location_v1 to_ascii
       [\<lparr>latitude = None, longitude = None, loc_description = None, google_maps_data = None\<rparr>]
       [(''spot_-1'', [''a.jpg''])] = Inr ([(''spot_-1'', - 1)], {- 1})"
    by code_simp
qed

section \<open>Distance and coordinate correction\<close>

lemma radians_diff: "radians (x - y) = radians x - radians y"
  by (simp add: radians_def diff_divide_distrib left_diff_distrib)

lemma haversine_mix:
  fixes p q s :: real
  assumes "0 \<le> s" "s \<le> 1"
  shows "0 \<le> (sin ((q - p) / 2))\<^sup>2 + cos p * cos q * s"
    and "(sin ((q - p) / 2))\<^sup>2 + cos p * cos q * s \<le> 1"
proof -
  let ?C = "cos (q - p)" and ?D = "cos (p + q)"
  have s2: "(sin ((q - p) / 2))\<^sup>2 = (1 - ?C) / 2"
  proof -
    have "q - p = 2 * ((q - p) / 2)" by simp
    then have "?C = 1 - 2 * (sin ((q - p) / 2))\<^sup>2"
      using cos_double_sin [of "(q - p) / 2"] by metis
    then show ?thesis by simp
  qed
  have cc: "cos p * cos q = (?C + ?D) / 2"
    by (simp add: cos_add cos_diff)
  have e: "(sin ((q - p) / 2))\<^sup>2 + cos p * cos q * s = 1 / 2 - ?C * (1 - s) / 2 + ?D * s / 2"
    unfolding s2 cc by (simp add: field_simps)
  have c1: "?C * (1 - s) \<le> 1 * (1 - s)"
    by (rule mult_right_mono) (use assms in simp_all)
  have c2: "- 1 * (1 - s) \<le> ?C * (1 - s)"
    by (rule mult_right_mono) (use assms in simp_all)
  have d1: "?D * s \<le> 1 * s"
    by (rule mult_right_mono) (use assms in simp_all)
  have d2: "- 1 * s \<le> ?D * s"
    by (rule mult_right_mono) (use assms in simp_all)
  show "0 \<le> (sin ((q - p) / 2))\<^sup>2 + cos p * cos q * s"
    unfolding e using c1 d2 by simp
  show "(sin ((q - p) / 2))\<^sup>2 + cos p * cos q * s \<le> 1"
    unfolding e using c2 d1 by simp
qed

lemma haversine_a_range:
  "0 \<le> haversine_a lat1 lon1 lat2 lon2" "haversine_a lat1 lon1 lat2 lon2 \<le> 1"
proof -
  have s: "0 \<le> (sin ((radians lon2 - radians lon1) / 2))\<^sup>2"
    "(sin ((radians lon2 - radians lon1) / 2))\<^sup>2 \<le> 1"
    using sin_cos_squared_add [of "(radians lon2 - radians lon1) / 2"]
      zero_le_power2 [of "cos ((radians lon2 - radians lon1) / 2)"]
    by (simp, linarith)
  from haversine_mix [where p = "radians lat1" and q = "radians lat2", OF s]
  show "0 \<le> haversine_a lat1 lon1 lat2 lon2" "haversine_a lat1 lon1 lat2 lon2 \<le> 1"
    by (simp_all add: haversine_a_def)
qed

text \<open>
  C6. Over the reals the distance function never fails (the haversine term lies between 0
  and 1, so both square roots are defined) and returns the reference half-angle formula
  \<open>6371 * 2 * atan2 (sqrt a) (sqrt (1 - a))\<close>, with
  \<open>a = sin\<^sup>2(\<Delta>lat/2) + cos lat1 * cos lat2 * sin\<^sup>2(\<Delta>lon/2)\<close> on the angles in radians.
\<close>

theorem calculate_distance_reference:
  "calculate_distance lat1 lon1 lat2 lon2 = Inr (distance_km_reference lat1 lon1 lat2 lon2)"
proof -
  have a: "(sin (radians (lat2 - lat1) / 2))\<^sup>2
           + cos (radians lat1) * cos (radians lat2) * (sin (radians (lon2 - lon1) / 2))\<^sup>2
           = haversine_a lat1 lon1 lat2 lon2"
    by (simp add: haversine_a_def radians_diff)
  show ?thesis
    unfolding calculate_distance_def Let_def a
    using haversine_a_range [of lat1 lon1 lat2 lon2]
    by (simp add: py_sqrt_def distance_km_reference_def)
qed

lemma ref_far: "distance_km_reference 0 0 0 180 = 6371 * pi"
  by (simp add: distance_km_reference_def haversine_a_def radians_def atan2_def)


theorem calculate_distance_reference_witness:
  "calculate_distance 0 0 0 180 = Inr (6371 * pi)"
  using calculate_distance_reference [of 0 0 0 180] by (simp add: ref_far)




section \<open>The declared-path mapping assigns every record at most once\<close>

text \<open>
  Every index written by the two loops of \<open>fix_spots_json\<close> (fix_spots_mapping.py) is a
  position of \<open>enriched_data\<close>, as long as no folder name holds a negative number: the
  first loop only writes indices produced by \<open>enumerate\<close>, and the fallback loop only
  writes an index below \<open>len(enriched_data)\<close>.
\<close>

lemma update_entry_key: "q \<in> set (AList.update k v al) \<Longrightarrow> q \<in> set al \<or> fst q = k"
  using update_entry [of q k v al] by auto

lemma update_entry_value: "q \<in> set (AList.update k v al) \<Longrightarrow> q \<in> set al \<or> snd q = v"
  using update_entry [of q k v al] by auto

lemma map_locations_keys:
  "p \<in> set (map_locations (enumerate n ls) l2s) \<Longrightarrow>
     p \<in> set l2s \<or> (int n \<le> fst p \<and> fst p < int (n + length ls))"
proof (induction ls arbitrary: n l2s)
  case Nil
  then show ?case by simp
next
  case (Cons l ls)
  let ?l2s = "if find_spot_folders (declared_images l) {} \<noteq> {}
        then (case count_spots (declared_images l) [] of
                [] \<Rightarrow> l2s
              | c # cs \<Rightarrow> AList.update (int n) (fst (py_max_from snd c cs)) l2s)
        else l2s"
  from Cons.prems have "p \<in> set (map_locations (enumerate (Suc n) ls) ?l2s)" by simp
  from Cons.IH [OF this]
  have "p \<in> set ?l2s \<or> (int (Suc n) \<le> fst p \<and> fst p < int (Suc n + length ls))" .
  moreover have "q \<in> set ?l2s \<Longrightarrow> q \<in> set l2s \<or> fst q = int n" for q
    by (auto split: if_splits list.splits dest: update_entry_key)
  ultimately show ?case by fastforce
qed

lemma map_declared_values:
  "p \<in> set (map_declared l2s ex s) \<Longrightarrow> p \<in> set s \<or> snd p \<in> fst ` set l2s"
proof (induction l2s arbitrary: s)
  case Nil
  then show ?case by simp
next
  case (Cons e rest)
  obtain loc_idx spot_folder where e: "e = (loc_idx, spot_folder)" by (cases e)
  let ?s = "if spot_folder \<in> set (map fst ex)
        then (if spot_folder \<notin> set (map fst s)
              then AList.update spot_folder loc_idx s else s)
        else s"
  from Cons.prems e have "p \<in> set (map_declared rest ex ?s)" by simp
  from Cons.IH [OF this] have "p \<in> set ?s \<or> snd p \<in> fst ` set rest" .
  moreover have "q \<in> set ?s \<Longrightarrow> q \<in> set s \<or> snd q = loc_idx" for q
    by (auto split: if_splits dest: update_entry_value)
  ultimately show ?case using e by fastforce
qed

lemma first_pass_range:
  assumes "p \<in> set (map_declared (build_location_to_spot_mapping data) ex [])"
  shows "0 \<le> snd p \<and> snd p < int (length data)"
proof -
  from map_declared_values [OF assms]
  obtain q where q: "q \<in> set (build_location_to_spot_mapping data)" "fst q = snd p"
    by auto
  from map_locations_keys [of q 0 data "[]"] q(1)
  have "0 \<le> fst q \<and> fst q < int (length data)"
    by (simp add: build_location_to_spot_mapping_def)
  with q(2) show ?thesis by simp
qed

lemma map_fallback_total:
  assumes "\<forall>f \<in> set fs. \<forall>i. py_int u (py_replace ''spot_'' [] f) = Some i \<longrightarrow> 0 \<le> i"
  shows "\<exists>s' M'. map_fallback u data fs (s, M) = Inr (s', M')
           \<and> (\<forall>p \<in> set s'. p \<in> set s \<or> (0 \<le> snd p \<and> snd p < int (length data)))"
  using assms
proof (induction fs arbitrary: s M)
  case Nil
  then show ?case by simp
next
  case (Cons f fs)
  then have nn: "\<forall>g \<in> set fs. \<forall>i. py_int u (py_replace ''spot_'' [] g) = Some i \<longrightarrow> 0 \<le> i"
    by simp
  show ?case
  proof (cases "f \<in> set (map fst s) \<or> py_int u (py_replace ''spot_'' [] f) = None")
    case True
    from map_fallback_skip [OF True] Cons.IH [OF nn, of s M] show ?thesis by simp
  next
    case False
    then obtain i where i: "f \<notin> set (map fst s)" "py_int u (py_replace ''spot_'' [] f) = Some i"
      by auto
    with Cons.prems have i0: "0 \<le> i" by simp
    show ?thesis
    proof (cases "i < int (length data) \<and> i \<notin> M
           \<and> (location_spots (data ! nat i) = {} \<or> Some f \<in> location_spots (data ! nat i))")
      case True
      from Cons.IH [OF nn, of "AList.update f i s" "insert i M"]
      obtain s' M' where r: "map_fallback u data fs (AList.update f i s, insert i M) = Inr (s', M')"
        "\<forall>p \<in> set s'. p \<in> set (AList.update f i s) \<or> (0 \<le> snd p \<and> snd p < int (length data))"
        by blast
      have "q \<in> set (AList.update f i s) \<Longrightarrow> q \<in> set s \<or> (0 \<le> snd q \<and> snd q < int (length data))" for q
        using update_entry [of q f i s] True i0 by auto
      with r(2) have "\<forall>p \<in> set s'. p \<in> set s \<or> (0 \<le> snd p \<and> snd p < int (length data))"
        by blast
      with r(1) map_fallback_step_nonneg [OF i i0, where data = data and fs = fs and M = M] True show ?thesis by simp
    next
      case False
      with map_fallback_step_nonneg [OF i i0, where data = data and fs = fs and M = M] Cons.IH [OF nn, of s M]
      show ?thesis by simp
    qed
  qed
qed

text \<open>
  C1 (as amended). For an inventory none of whose folder names holds a negative number,
  the mapping of \<open>fix_spots_json\<close> in fix_spots_mapping.py (declared paths first,
  positional fallback second) is built without an error, every index it assigns is a
  position \<open>0 \<le> l < len(enriched_data)\<close> of a record, and it is injective: no two folders
  are assigned the same record. \<open>mapped_locations\<close> is exactly the set of indices assigned,
  and the entries of the first loop stay as they are through the fallback loop, which
  walks the folders in the order of the inventory and only adds entries after them: an
  index claimed earlier is never claimed again.
\<close>

theorem v1_mapping_injective:
  assumes "\<forall>f \<in> set (map fst (get_existing_images listing)).
             \<forall>i. py_int u (py_replace ''spot_'' [] f) = Some i \<longrightarrow> 0 \<le> i"
  shows "\<exists>m mapped. spot_to_location_v1 u enriched_data listing = Inr (m, mapped)
    \<and> (\<forall>f l. map_of m f = Some l \<longrightarrow> 0 \<le> l \<and> l < int (length enriched_data))
    \<and> (\<forall>f g l. map_of m f = Some l \<and> map_of m g = Some l \<longrightarrow> f = g)
    \<and> mapped = set (map snd m)
    \<and> prefix (map_declared (build_location_to_spot_mapping enriched_data)
                (get_existing_images listing) []) m"
proof -
  let ?l2s = "build_location_to_spot_mapping enriched_data"
  let ?ex = "get_existing_images listing"
  let ?s = "map_declared ?l2s ?ex []"
  have "distinct (map fst ?l2s)"
    unfolding build_location_to_spot_mapping_def by (rule distinct_map_locations) simp
  then have s: "distinct (map fst ?s)" "distinct (map snd ?s)"
    using map_declared_inv [of ?l2s "[]" ?ex] by simp_all
  from map_fallback_total [OF assms, of enriched_data ?s "set (map snd ?s)"]
  obtain m mapped where r: "map_fallback u enriched_data (map fst ?ex) (?s, set (map snd ?s)) = Inr (m, mapped)"
    and rng: "\<forall>p \<in> set m. p \<in> set ?s \<or> (0 \<le> snd p \<and> snd p < int (length enriched_data))"
    by blast
  from map_fallback_inv [OF r s] have inv: "distinct (map snd m)" "mapped = set (map snd m)" "prefix ?s m"
    by simp_all
  have run: "spot_to_location_v1 u enriched_data listing = Inr (m, mapped)"
    using r by (simp add: spot_to_location_v1_def Let_def)
  have range: "0 \<le> l \<and> l < int (length enriched_data)" if "map_of m f = Some l" for f l
  proof -
    from that have "(f, l) \<in> set m" by (rule map_of_SomeD)
    with rng first_pass_range [of "(f, l)" enriched_data ?ex] show ?thesis by fastforce
  qed
  have inj: "f = g" if "map_of m f = Some l" "map_of m g = Some l" for f g l
    using distinct_values_inj [OF inv(1) that] .
  show ?thesis
    using run range inj inv(2,3) by blast
qed

text \<open>
  A run of the amended statement: two records, the second declaring an image in
  \<open>spot_9\<close>; the folders \<open>spot_0\<close>, \<open>spot_9\<close>, \<open>spot_1\<close> on disk.
\<close>

theorem v1_mapping_injective_witness:
  "\<forall>to_ascii. \<exists>m mapped. spot_to_location_v1 to_ascii
     [\<lparr>latitude = None, longitude = None, loc_description = None, google_maps_data = None\<rparr>,
      \<lparr>latitude = None, longitude = None, loc_description = None,
         google_maps_data = Some \<lparr>place_name = None, g_address = None, g_category = None,
           g_rating = None, g_images = Some [\<lparr>local_path = Some ''images/spot_9/a.jpg''\<rparr>]\<rparr>\<rparr>]
     [(''spot_0'', [''a.jpg'']), (''spot_9'', [''a.jpg'']), (''spot_1'', [''a.jpg''])]
     = Inr (m, mapped) \<and> mapped = set (map snd m)"
proof
  fix to_ascii
  have h: "\<forall>f \<in> set (map fst (get_existing_images
        [(''spot_0'', [''a.jpg'']), (''spot_9'', [''a.jpg'']), (''spot_1'', [''a.jpg''])])).
      \<forall>i. py_int to_ascii (py_replace ''spot_'' [] f) = Some i \<longrightarrow> 0 \<le> i"
    by (simp add: get_existing_images_def py_int_def is_ascii_def int_of_ascii_def py_strip_def
        is_space_def parse_nat_def digit_val_def)
  from v1_mapping_injective [OF h]
  show "\<exists>m mapped. spot_to_location_v1 to_ascii
     [\<lparr>latitude = None, longitude = None, loc_description = None, google_maps_data = None\<rparr>,
      \<lparr>latitude = None, longitude = None, loc_description = None,
         google_maps_data = Some \<lparr>place_name = None, g_address = None, g_category = None,
           g_rating = None, g_images = Some [\<lparr>local_path = Some ''images/spot_9/a.jpg''\<rparr>]\<rparr>\<rparr>]
     [(''spot_0'', [''a.jpg'']), (''spot_9'', [''a.jpg'']), (''spot_1'', [''a.jpg''])]
     = Inr (m, mapped) \<and> mapped = set (map snd m)"
    by blast
qed

text \<open>
  C1 as stated does not hold. The vote-based mapping of fix_spots_mapping_v2.py looks at
  one folder at a time: a record declaring an image in \<open>spot_0\<close> and one in \<open>spot_1\<close> is
  assigned to both folders. And the mapping that does refuse a second claim, the one of
  fix_spots_mapping.py, walks the folders in the order of the inventory, not in
  lexicographic order: with \<open>spot_1\<close> listed before \<open>spot_01\<close> (both name index 1),
  \<open>spot_1\<close> claims record 1 although \<open>spot_01\<close> sorts first. The last two conjuncts show
  why the amended statement asks for folder names without a negative number: with one
  record, \<open>spot_0\<close> is assigned 0 and \<open>spot_-1\<close> is assigned -1, and both indices read
  the same record.
\<close>

theorem shared_location_counterexample:
  "\<forall>to_ascii.
     build_spot_to_location_mapping
      [\<lparr>latitude = None, longitude = None, loc_description = None,
         google_maps_data = Some \<lparr>place_name = None, g_address = None, g_category = None,
           g_rating = None, g_images = Some [\<lparr>local_path = Some ''images/spot_0/a.jpg''\<rparr>,
             \<lparr>local_path = Some ''images/spot_1/b.jpg''\<rparr>]\<rparr>\<rparr>]
      [(''spot_0'', [''a.jpg'']), (''spot_1'', [''b.jpg''])] = [(''spot_0'', 0), (''spot_1'', 0)]
   \<and> sort [''spot_1'', ''spot_01''] = [''spot_01'', ''spot_1'']
   \<and> spot_to_location_v1 to_ascii
      [\<lparr>latitude = None, longitude = None, loc_description = None, google_maps_data = None\<rparr>,
       \<lparr>latitude = None, longitude = None, loc_description = None, google_maps_data = None\<rparr>]
      [(''spot_1'', [''a.jpg'']), (''spot_01'', [''a.jpg''])] = Inr ([(''spot_1'', 1)], {1})
   \<and> spot_to_location_v1 to_ascii
      [\<lparr>latitude = None, longitude = None, loc_description = None, google_maps_data = None\<rparr>]
      [(''spot_0'', [''a.jpg'']), (''spot_-1'', [''a.jpg''])]
        = Inr ([(''spot_0'', 0), (''spot_-1'', - 1)], {0, - 1})
   \<and> py_index [\<lparr>latitude = None, longitude = None, loc_description = None,
          google_maps_data = None\<rparr>] (- 1)
       = py_index [\<lparr>latitude = None, longitude = None, loc_description = None,
          google_maps_data = None\<rparr>] 0"
proof
  fix to_ascii
  have a: "build_spot_to_location_mapping
      [\<lparr>latitude = None, longitude = None, loc_description = None,
         google_maps_data = Some \<lparr>place_name = None, g_address = None, g_category = None,
           g_rating = None, g_images = Some [\<lparr>local_path = Some ''images/spot_0/a.jpg''\<rparr>,
             \<lparr>local_path = Some ''images/spot_1/b.jpg''\<rparr>]\<rparr>\<rparr>]
      [(''spot_0'', [''a.jpg'']), (''spot_1'', [''b.jpg''])] = [(''spot_0'', 0), (''spot_1'', 0)]"
    by code_simp
  have b: "sort [''spot_1'', ''spot_01''] = [''spot_01'', ''spot_1'']"
    by code_simp
  have c: "spot_to_location_v1 to_ascii
      [\<lparr>latitude = None, longitude = None, loc_description = None, google_maps_data = None\<rparr>,
       \<lparr>latitude = None, longitude = None, loc_description = None, google_maps_data = None\<rparr>]
      [(''spot_1'', [''a.jpg'']), (''spot_01'', [''a.jpg''])] = Inr ([(''spot_1'', 1)], {1})"
    by code_simp
  have d: "spot_to_location_v1 to_ascii
      [\<lparr>latitude = None, longitude = None, loc_description = None, google_maps_data = None\<rparr>]
      [(''spot_0'', [''a.jpg'']), (''spot_-1'', [''a.jpg''])]
        = Inr ([(''spot_0'', 0), (''spot_-1'', - 1)], {0, - 1})"
    by code_simp
  have e: "py_index [\<lparr>latitude = None, longitude = None, loc_description = None,
          google_maps_data = None\<rparr>] (- 1)
       = py_index [\<lparr>latitude = None, longitude = None, loc_description = None,
          google_maps_data = None\<rparr>] 0"
    by (simp add: py_index_def)
  show "build_spot_to_location_mapping
      [\<lparr>latitude = None, longitude = None, loc_description = None,
         google_maps_data = Some \<lparr>place_name = None, g_address = None, g_category = None,
           g_rating = None, g_images = Some [\<lparr>local_path = Some ''images/spot_0/a.jpg''\<rparr>,
             \<lparr>local_path = Some ''images/spot_1/b.jpg''\<rparr>]\<rparr>\<rparr>]
      [(''spot_0'', [''a.jpg'']), (''spot_1'', [''b.jpg''])] = [(''spot_0'', 0), (''spot_1'', 0)]
   \<and> sort [''spot_1'', ''spot_01''] = [''spot_01'', ''spot_1'']
   \<and> spot_to_location_v1 to_ascii
      [\<lparr>latitude = None, longitude = None, loc_description = None, google_maps_data = None\<rparr>,
       \<lparr>latitude = None, longitude = None, loc_description = None, google_maps_data = None\<rparr>]
      [(''spot_1'', [''a.jpg'']), (''spot_01'', [''a.jpg''])] = Inr ([(''spot_1'', 1)], {1})
   \<and> spot_to_location_v1 to_ascii
      [\<lparr>latitude = None, longitude = None, loc_description = None, google_maps_data = None\<rparr>]
      [(''spot_0'', [''a.jpg'']), (''spot_-1'', [''a.jpg''])]
        = Inr ([(''spot_0'', 0), (''spot_-1'', - 1)], {0, - 1})
   \<and> py_index [\<lparr>latitude = None, longitude = None, loc_description = None,
          google_maps_data = None\<rparr>] (- 1)
       = py_index [\<lparr>latitude = None, longitude = None, loc_description = None,
          google_maps_data = None\<rparr>] 0"
    using a b c d e by (intro conjI)
qed

end
